theory Spec2Isabelle
  imports Complex_Main
begin

section \<open>The gamepad demo: data model\<close>

text \<open>
  The program is one TypeScript class, \<^verbatim>\<open>GamepadDemo\<close>, driven by the browser: a frame
  callback (\<^verbatim>\<open>gameLoop\<close>) and two notifications (\<^verbatim>\<open>gamepadconnected\<close>,
  \<^verbatim>\<open>gamepaddisconnected\<close>). JavaScript numbers are modelled as real numbers (no rounding,
  no NaN); a reading that JavaScript yields as \<^verbatim>\<open>undefined\<close> is \<open>None\<close>. The clock
  \<^verbatim>\<open>Date.now()\<close> is a whole number of milliseconds and is an input of each frame.
\<close>

record gamepadState =
  x :: real
  y :: real
  rotation :: real
  connected :: bool
  shooting :: bool
  lastShotTime :: int

record projectile =
  x :: real
  y :: real
  rotation :: real
  speed :: real
  active :: bool

text \<open>
  The drawing surface: only its size is read. \<^verbatim>\<open>HTMLCanvasElement.width\<close> and
  \<^verbatim>\<open>height\<close> are unsigned integers fixed by the page.
\<close>

record canvas =
  width :: nat
  height :: nat

text \<open>A button of a controller; only \<^verbatim>\<open>pressed\<close> is read.\<close>

record gamepadButton =
  pressed :: bool

record gamepad =
  gid :: string
  axes :: "real list"
  buttons :: "gamepadButton list"

text \<open>
  What the status element shows. The text itself is formatting; the model keeps the values
  the template formats: controller id, the four stick readings, the rotation in degrees, the
  trigger and the number of active projectiles.
\<close>

datatype status =
    PageText
  | ConnectedText string
  | NoGamepadText
  | Summary string real real real real real bool nat

text \<open>
  Projectiles are JavaScript objects: the array \<^verbatim>\<open>this.projectiles\<close> holds references and
  the update loop mutates the objects in place. The store \<open>heap\<close> holds every projectile
  object ever created, a reference is its index, and \<open>projectiles\<close> is the array of
  references. An object dropped from the array stays in the store, unreachable.
\<close>

record demo =
  gamepadState :: gamepadState
  heap :: "projectile list"
  projectiles :: "nat list"
  statusText :: status
  animationFrameId :: nat

datatype error = TypeError

datatype 'a completion = Normal 'a | Throw error

text \<open>What the host supplies to one frame callback.\<close>

record inputs =
  now :: int
  gamepads :: "gamepad option list"
  frameId :: nat

text \<open>What one call of \<^verbatim>\<open>render\<close> draws.\<close>

record frame =
  discs :: "(real \<times> real) list"
  translate :: "real \<times> real"
  rotate :: real
  fillStyle :: string

section \<open>Host functions\<close>

text \<open>\<^verbatim>\<open>arr[i]\<close> on a JavaScript array: \<^verbatim>\<open>undefined\<close> past the end.\<close>

definition index :: "'a list \<Rightarrow> nat \<Rightarrow> 'a option" where
  "index xs i = (if i < length xs then Some (xs ! i) else None)"

text \<open>\<^verbatim>\<open>v || 0\<close> on a number or \<^verbatim>\<open>undefined\<close>: both \<^verbatim>\<open>undefined\<close> and \<open>0\<close> are falsy.\<close>

definition orZero :: "real option \<Rightarrow> real" where
  "orZero v = (case v of None \<Rightarrow> 0 | Some a \<Rightarrow> if a = 0 then 0 else a)"

text \<open>\<^verbatim>\<open>gamepad.buttons[i]?.pressed\<close>, then its truthiness.\<close>

definition pressedAt :: "gamepad \<Rightarrow> nat \<Rightarrow> bool option" where
  "pressedAt g i = map_option pressed (index (buttons g) i)"

definition truthy :: "bool option \<Rightarrow> bool" where
  "truthy v = (case v of None \<Rightarrow> False | Some b \<Rightarrow> b)"

text \<open>
  The constant \<^verbatim>\<open>rightTrigger\<close> of \<^verbatim>\<open>updateGamepadState\<close>: buttons 7, 5 and 6 in that
  order, each \<^verbatim>\<open>undefined\<close> when the controller has no such button, then \<^verbatim>\<open>false\<close>.
\<close>

definition rightTrigger :: "gamepad \<Rightarrow> bool" where
  "rightTrigger g =
     (truthy (pressedAt g 7) \<or> truthy (pressedAt g 5) \<or> truthy (pressedAt g 6) \<or> False)"

definition deadZone :: real where
  "deadZone = 0.1"

text \<open>\<^verbatim>\<open>Math.atan2(y, x)\<close> on real numbers: the angle of the point \<open>(x, y)\<close> in \<open>(-\<pi>, \<pi>]\<close>.\<close>

definition atan2 :: "real \<Rightarrow> real \<Rightarrow> real" where
  "atan2 b a =
     (if 0 < a then arctan (b / a)
      else if a < 0 then (if 0 \<le> b then arctan (b / a) + pi else arctan (b / a) - pi)
      else if 0 < b then pi / 2
      else if b < 0 then - (pi / 2)
      else 0)"

section \<open>The class\<close>

definition shootCooldown :: int where
  "shootCooldown = 250"

text \<open>The state the constructor builds before it starts the loop.\<close>

definition initialState :: "canvas \<Rightarrow> demo" where
  "initialState c =
     \<lparr>gamepadState =
        \<lparr>gamepadState.x = real (width c) / 2 - 25,
         gamepadState.y = real (height c) / 2 - 25,
         gamepadState.rotation = 0,
         connected = False,
         shooting = False,
         lastShotTime = 0\<rparr>,
      heap = [],
      projectiles = [],
      statusText = PageText,
      animationFrameId = 0\<rparr>"

definition onGamepadConnected :: "string \<Rightarrow> demo \<Rightarrow> demo" where
  "onGamepadConnected ident s =
     s\<lparr>gamepadState := (gamepadState s)\<lparr>connected := True\<rparr>,
       statusText := ConnectedText ident\<rparr>"

definition onGamepadDisconnected :: "demo \<Rightarrow> demo" where
  "onGamepadDisconnected s =
     s\<lparr>gamepadState := (gamepadState s)\<lparr>connected := False\<rparr>,
       statusText := NoGamepadText\<rparr>"

text \<open>
  \<^verbatim>\<open>shootProjectile\<close>: the object literal is a fresh object (the next free index of the
  store), pushed at the end of the array.
\<close>

definition shootProjectile :: "int \<Rightarrow> demo \<Rightarrow> demo" where
  "shootProjectile t s =
     (if t - lastShotTime (gamepadState s) > shootCooldown then
        let p = \<lparr>projectile.x = gamepadState.x (gamepadState s) + 25,
                 projectile.y = gamepadState.y (gamepadState s) + 25,
                 projectile.rotation = gamepadState.rotation (gamepadState s),
                 speed = 8,
                 active = True\<rparr>
        in s\<lparr>heap := heap s @ [p],
             projectiles := projectiles s @ [length (heap s)],
             gamepadState := (gamepadState s)\<lparr>lastShotTime := t\<rparr>\<rparr>
      else s)"

text \<open>The body of the loop of \<^verbatim>\<open>updateProjectiles\<close>, on one projectile object.\<close>

definition moveProjectile :: "canvas \<Rightarrow> projectile \<Rightarrow> projectile" where
  "moveProjectile c p =
     (if active p then
        let p1 = p\<lparr>projectile.x := projectile.x p + cos (projectile.rotation p) * speed p\<rparr>;
            p2 = p1\<lparr>projectile.y := projectile.y p1 + sin (projectile.rotation p1) * speed p1\<rparr>
        in if projectile.x p2 < 0 \<or> projectile.x p2 > real (width c) \<or>
              projectile.y p2 < 0 \<or> projectile.y p2 > real (height c)
           then p2\<lparr>active := False\<rparr>
           else p2
      else p)"

text \<open>The loop itself: the references of the array in order, each object updated in place.\<close>

fun updateLoop :: "canvas \<Rightarrow> nat list \<Rightarrow> projectile list \<Rightarrow> projectile list" where
  "updateLoop c [] h = h"
| "updateLoop c (r # rs) h = updateLoop c rs (h[r := moveProjectile c (h ! r)])"

definition updateProjectiles :: "canvas \<Rightarrow> demo \<Rightarrow> demo" where
  "updateProjectiles c s =
     (let s1 = s\<lparr>heap := updateLoop c (projectiles s) (heap s)\<rparr>
      in if length (projectiles s1) > 100
         then s1\<lparr>projectiles := filter (\<lambda>r. active (heap s1 ! r)) (projectiles s1)\<rparr>
         else s1)"

text \<open>
  The body of the loop of \<^verbatim>\<open>updateGamepadState\<close>, run on the first controller that is not
  null, statement by statement. First the readings (lines 115 to 128): the left stick is read
  as it is, \<^verbatim>\<open>undefined\<close> when the controller has no such axis; the right stick goes
  through \<^verbatim>\<open>|| 0\<close>.
\<close>

definition horizontalAxis :: "gamepad \<Rightarrow> real option" where
  "horizontalAxis g = index (axes g) 0"

definition verticalAxis :: "gamepad \<Rightarrow> real option" where
  "verticalAxis g = index (axes g) 1"

definition rightHorizontalAxis :: "gamepad \<Rightarrow> real" where
  "rightHorizontalAxis g = orZero (index (axes g) 2)"

definition rightVerticalAxis :: "gamepad \<Rightarrow> real" where
  "rightVerticalAxis g = orZero (index (axes g) 3)"

text \<open>
  Lines 134 to 136 and 138 to 140. For a reading that is \<^verbatim>\<open>undefined\<close>, \<^verbatim>\<open>Math.abs\<close> gives
  NaN and the comparison with the dead zone is false, so the branch is not taken.
\<close>

definition moveHorizontal :: "gamepad \<Rightarrow> gamepadState \<Rightarrow> gamepadState" where
  "moveHorizontal g gs =
     (case horizontalAxis g of
        None \<Rightarrow> gs
      | Some h \<Rightarrow>
          if \<bar>h\<bar> > deadZone then gs\<lparr>gamepadState.x := gamepadState.x gs + h * 5\<rparr> else gs)"

definition moveVertical :: "gamepad \<Rightarrow> gamepadState \<Rightarrow> gamepadState" where
  "moveVertical g gs =
     (case verticalAxis g of
        None \<Rightarrow> gs
      | Some v \<Rightarrow>
          if \<bar>v\<bar> > deadZone then gs\<lparr>gamepadState.y := gamepadState.y gs + v * 5\<rparr> else gs)"

text \<open>Lines 143 to 147.\<close>

definition turn :: "gamepad \<Rightarrow> gamepadState \<Rightarrow> gamepadState" where
  "turn g gs =
     (if \<bar>rightHorizontalAxis g\<bar> > deadZone \<or> \<bar>rightVerticalAxis g\<bar> > deadZone
      then gs\<lparr>gamepadState.rotation := atan2 (rightVerticalAxis g) (rightHorizontalAxis g)\<rparr>
      else gs)"

text \<open>Lines 150 and 151.\<close>

definition keepInCanvas :: "canvas \<Rightarrow> gamepadState \<Rightarrow> gamepadState" where
  "keepInCanvas c gs =
     (let gs1 = gs\<lparr>gamepadState.x := max 0 (min (real (width c) - 50) (gamepadState.x gs))\<rparr>
      in gs1\<lparr>gamepadState.y := max 0 (min (real (height c) - 50) (gamepadState.y gs1))\<rparr>)"

text \<open>Lines 133 to 151 together: what one frame's stick readings do to the entity.\<close>

definition applySticks :: "canvas \<Rightarrow> gamepad \<Rightarrow> gamepadState \<Rightarrow> gamepadState" where
  "applySticks c g gs = keepInCanvas c (turn g (moveVertical g (moveHorizontal g gs)))"

text \<open>Lines 154 to 159.\<close>

definition handleTrigger :: "int \<Rightarrow> gamepad \<Rightarrow> demo \<Rightarrow> demo" where
  "handleTrigger t g s =
     (if rightTrigger g
      then let s1 = shootProjectile t s
           in s1\<lparr>gamepadState := (gamepadState s1)\<lparr>shooting := True\<rparr>\<rparr>
      else s\<lparr>gamepadState := (gamepadState s)\<lparr>shooting := False\<rparr>\<rparr>)"

text \<open>
  Lines 162 to 170: the status template. \<^verbatim>\<open>horizontalAxis.toFixed(2)\<close> and
  \<^verbatim>\<open>verticalAxis.toFixed(2)\<close> throw a TypeError when the reading is \<^verbatim>\<open>undefined\<close>; the
  exception comes after every mutation above and before the status is assigned.
\<close>

definition writeStatus :: "gamepad \<Rightarrow> demo \<Rightarrow> unit completion \<times> demo" where
  "writeStatus g s =
     (case horizontalAxis g of
        None \<Rightarrow> (Throw TypeError, s)
      | Some h \<Rightarrow>
          (case verticalAxis g of
             None \<Rightarrow> (Throw TypeError, s)
           | Some v \<Rightarrow>
               (Normal (),
                s\<lparr>statusText :=
                     Summary (gid g) h v (rightHorizontalAxis g) (rightVerticalAxis g)
                       (gamepadState.rotation (gamepadState s) * 180 / pi)
                       (rightTrigger g)
                       (length (filter (\<lambda>r. active (heap s ! r)) (projectiles s)))\<rparr>)))"

definition useGamepad :: "canvas \<Rightarrow> int \<Rightarrow> gamepad \<Rightarrow> demo \<Rightarrow> unit completion \<times> demo" where
  "useGamepad c t g s =
     (let s1 = s\<lparr>gamepadState := applySticks c g (gamepadState s)\<rparr>;
          s2 = handleTrigger t g s1
      in writeStatus g s2)"

text \<open>\<^verbatim>\<open>updateGamepadState\<close>: the first entry of \<^verbatim>\<open>navigator.getGamepads()\<close> that is not null.\<close>

fun updateGamepadState ::
  "canvas \<Rightarrow> int \<Rightarrow> gamepad option list \<Rightarrow> demo \<Rightarrow> unit completion \<times> demo" where
  "updateGamepadState c t [] s = (Normal (), s)"
| "updateGamepadState c t (None # gs) s = updateGamepadState c t gs s"
| "updateGamepadState c t (Some g # gs) s = useGamepad c t g s"

definition renderProjectiles :: "demo \<Rightarrow> (real \<times> real) list" where
  "renderProjectiles s =
     map (\<lambda>p. (projectile.x p, projectile.y p))
       (filter active (map (\<lambda>r. heap s ! r) (projectiles s)))"

definition render :: "demo \<Rightarrow> frame" where
  "render s =
     \<lparr>discs = renderProjectiles s,
      translate = (gamepadState.x (gamepadState s) + 25, gamepadState.y (gamepadState s) + 25),
      rotate = gamepadState.rotation (gamepadState s),
      fillStyle =
        (if connected (gamepadState s)
         then (if shooting (gamepadState s) then ''#e74c3c'' else ''#3498db'')
         else ''#ccc'')\<rparr>"

text \<open>
  \<^verbatim>\<open>gameLoop\<close>: one tick. It returns the frame it drew; when \<^verbatim>\<open>updateGamepadState\<close> throws,
  the exception leaves \<^verbatim>\<open>gameLoop\<close> before the projectiles are updated, before anything is
  drawn and before the next frame is requested.
\<close>

definition gameLoop :: "canvas \<Rightarrow> inputs \<Rightarrow> demo \<Rightarrow> frame completion \<times> demo" where
  "gameLoop c i s =
     (case (if connected (gamepadState s)
            then updateGamepadState c (now i) (gamepads i) s
            else (Normal (), s)) of
        (Throw e, s1) \<Rightarrow> (Throw e, s1)
      | (Normal u, s1) \<Rightarrow>
          (let s2 = updateProjectiles c s1
           in (Normal (render s2), s2\<lparr>animationFrameId := frameId i\<rparr>)))"

section \<open>The page as a whole\<close>

text \<open>
  The host calls back one event at a time. \<open>scheduled\<close> says whether a frame callback is
  pending: \<^verbatim>\<open>gameLoop\<close> requests the next frame as its last statement, so a tick that throws
  requests none and no later frame runs.
\<close>

datatype event =
    AnimationFrame inputs
  | GamepadConnected string
  | GamepadDisconnected

record page =
  app :: demo
  scheduled :: bool

definition afterTick :: "frame completion \<times> demo \<Rightarrow> page" where
  "afterTick r = (case r of (Normal f, s) \<Rightarrow> \<lparr>app = s, scheduled = True\<rparr>
                          | (Throw e, s) \<Rightarrow> \<lparr>app = s, scheduled = False\<rparr>)"

text \<open>The constructor builds the state and runs the first tick itself.\<close>

definition constructor :: "canvas \<Rightarrow> inputs \<Rightarrow> page" where
  "constructor c i = afterTick (gameLoop c i (initialState c))"

fun dispatch :: "canvas \<Rightarrow> page \<Rightarrow> event \<Rightarrow> page" where
  "dispatch c pg (AnimationFrame i) =
     (if scheduled pg then afterTick (gameLoop c i (app pg)) else pg)"
| "dispatch c pg (GamepadConnected ident) = pg\<lparr>app := onGamepadConnected ident (app pg)\<rparr>"
| "dispatch c pg GamepadDisconnected = pg\<lparr>app := onGamepadDisconnected (app pg)\<rparr>"

definition runPage :: "canvas \<Rightarrow> inputs \<Rightarrow> event list \<Rightarrow> page" where
  "runPage c i evs = foldl (dispatch c) (constructor c i) evs"

section \<open>Notions used to state the results\<close>

text \<open>
  The position delta one stick reading contributes, the clamp of a coordinate and the
  orientation one frame leaves behind. The lemmas of the next section show that the
  statements of the class compute exactly these.
\<close>

definition axisDelta :: "real option \<Rightarrow> real" where
  "axisDelta a = (case a of None \<Rightarrow> 0 | Some h \<Rightarrow> if \<bar>h\<bar> > deadZone then h * 5 else 0)"

definition clampTo :: "real \<Rightarrow> real \<Rightarrow> real" where
  "clampTo hi v = max 0 (min hi v)"

definition heldRotation :: "gamepad \<Rightarrow> real \<Rightarrow> real" where
  "heldRotation g r =
     (if \<bar>rightHorizontalAxis g\<bar> > deadZone \<or> \<bar>rightVerticalAxis g\<bar> > deadZone
      then atan2 (rightVerticalAxis g) (rightHorizontalAxis g) else r)"


text \<open>The controller \<^verbatim>\<open>updateGamepadState\<close> uses: the first entry that is not null.\<close>

fun firstGamepad :: "gamepad option list \<Rightarrow> gamepad option" where
  "firstGamepad [] = None"
| "firstGamepad (None # gs) = firstGamepad gs"
| "firstGamepad (Some g # gs) = Some g"

text \<open>The entity lies within the canvas: the interval of each axis is \<open>[0, size - 50]\<close>.\<close>

definition inBounds :: "canvas \<Rightarrow> gamepadState \<Rightarrow> bool" where
  "inBounds c gs \<longleftrightarrow>
     0 \<le> gamepadState.x gs \<and> gamepadState.x gs \<le> real (width c) - 50 \<and>
     0 \<le> gamepadState.y gs \<and> gamepadState.y gs \<le> real (height c) - 50"

text \<open>
  The references of the array are distinct and point into the store. Every state the page
  reaches is so: a reference enters the array once, when its object is created.
\<close>

definition wellFormed :: "demo \<Rightarrow> bool" where
  "wellFormed s \<longleftrightarrow>
     distinct (projectiles s) \<and> list_all (\<lambda>r. r < length (heap s)) (projectiles s)"

text \<open>The first step of \<^verbatim>\<open>gameLoop\<close>: the controller is sampled only while connected.\<close>

definition inputPhase :: "canvas \<Rightarrow> inputs \<Rightarrow> demo \<Rightarrow> unit completion \<times> demo" where
  "inputPhase c i s =
     (if connected (gamepadState s) then updateGamepadState c (now i) (gamepads i) s
      else (Normal (), s))"

text \<open>
  Store \<open>h'\<close> preserves store \<open>h\<close>: every object of \<open>h\<close> is still there, and an object
  that is not active in \<open>h\<close> is the same object, unchanged, in \<open>h'\<close>.
\<close>

definition preserved :: "projectile list \<Rightarrow> projectile list \<Rightarrow> bool" where
  "preserved h h' \<longleftrightarrow>
     length h \<le> length h' \<and> (\<forall>r<length h. \<not> active (h ! r) \<longrightarrow> h' ! r = h ! r)"

text \<open>The object literal of \<^verbatim>\<open>shootProjectile\<close>, for an entity in state \<open>gs\<close>.\<close>

definition newProjectile :: "gamepadState \<Rightarrow> projectile" where
  "newProjectile gs =
     \<lparr>projectile.x = gamepadState.x gs + 25, projectile.y = gamepadState.y gs + 25,
      projectile.rotation = gamepadState.rotation gs, speed = 8, active = True\<rparr>"

text \<open>Concrete inputs: an 800 by 600 canvas and a controller with eight buttons.\<close>

definition canvas800 :: canvas where
  "canvas800 = \<lparr>width = 800, height = 600\<rparr>"

definition pad :: "real list \<Rightarrow> bool \<Rightarrow> gamepad" where
  "pad as rt =
     \<lparr>gid = ''pad'', axes = as,
      buttons = [\<lparr>pressed = False\<rparr>, \<lparr>pressed = False\<rparr>, \<lparr>pressed = False\<rparr>,
                 \<lparr>pressed = False\<rparr>, \<lparr>pressed = False\<rparr>, \<lparr>pressed = False\<rparr>,
                 \<lparr>pressed = False\<rparr>, \<lparr>pressed = rt\<rparr>]\<rparr>"

text \<open>
  A state with 101 stored projectiles, all active, flying to the right in a row, on the 800
  by 600 canvas.
\<close>

definition crowded :: demo where
  "crowded =
     (initialState canvas800)
       \<lparr>heap := map (\<lambda>k. \<lparr>projectile.x = 7 * real k, projectile.y = 300,
                           projectile.rotation = 0, speed = 8, active = True\<rparr>) [0..<101],
        projectiles := [0..<101]\<rparr>"

text \<open>
  Frames: the one the constructor runs, and one at time \<open>t\<close> in which the host lists
  controller \<open>g\<close> after an empty slot.
\<close>

definition frame0 :: inputs where
  "frame0 = \<lparr>now = 0, gamepads = [], frameId = 0\<rparr>"

definition frameAt :: "int \<Rightarrow> gamepad \<Rightarrow> inputs" where
  "frameAt t g = \<lparr>now = t, gamepads = [None, Some g], frameId = 1\<rparr>"

text \<open>
  A session on the 800 by 600 canvas: the controller connects, one frame at time 1000 has
  the trigger pressed, the controller disconnects. The entity stays at its start (centre
  (400, 300), orientation 0); the projectile, spawned and moved once in the same frame, is at
  (408, 300).
\<close>

definition entityAt :: "bool \<Rightarrow> bool \<Rightarrow> int \<Rightarrow> gamepadState" where
  "entityAt con sh t =
     \<lparr>gamepadState.x = 375, gamepadState.y = 275, gamepadState.rotation = 0,
      connected = con, shooting = sh, lastShotTime = t\<rparr>"

definition bullet :: "real \<Rightarrow> projectile" where
  "bullet px =
     \<lparr>projectile.x = px, projectile.y = 300, projectile.rotation = 0, speed = 8, active = True\<rparr>"

definition shotFired :: page where
  "shotFired =
     \<lparr>app = \<lparr>gamepadState = entityAt True True 1000, heap = [bullet 408], projectiles = [0],
             statusText = Summary ''pad'' 0 0 0 0 0 True 1, animationFrameId = 1\<rparr>,
      scheduled = True\<rparr>"

definition unplugged :: page where
  "unplugged =
     \<lparr>app = \<lparr>gamepadState = entityAt False True 1000, heap = [bullet 408], projectiles = [0],
             statusText = NoGamepadText, animationFrameId = 1\<rparr>,
      scheduled = True\<rparr>"

definition unplugTrace :: "event list" where
  "unplugTrace =
     [GamepadConnected ''pad'', AnimationFrame (frameAt 1000 (pad [0, 0, 0, 0] True)),
      GamepadDisconnected]"

text \<open>The same state once the projectile has left the canvas and is no longer active.\<close>

definition spent :: demo where
  "spent = (app unplugged)\<lparr>heap := [(bullet 808)\<lparr>active := False\<rparr>]\<rparr>"

text \<open>
  A session on a 60 by 60 canvas (entity at (5, 5), centre (30, 30)): the controller
  connects, a frame at time 1000 has the trigger pressed, three more frames follow. The
  projectile is at \<open>x = 38\<close>, 46, 54 and then 62, outside the canvas, where it stops being
  active.
\<close>

definition canvas60 :: canvas where
  "canvas60 = \<lparr>width = 60, height = 60\<rparr>"

definition exitTrace :: "event list" where
  "exitTrace =
     [GamepadConnected ''pad'',
      AnimationFrame (frameAt 1000 (pad [0, 0, 0, 0] True)),
      AnimationFrame (frameAt 1016 (pad [0, 0, 0, 0] False)),
      AnimationFrame (frameAt 1032 (pad [0, 0, 0, 0] False)),
      AnimationFrame (frameAt 1048 (pad [0, 0, 0, 0] False))]"

definition small :: "bool \<Rightarrow> int \<Rightarrow> projectile list \<Rightarrow> nat list \<Rightarrow> page" where
  "small sh t h ps =
     \<lparr>app =
        \<lparr>gamepadState =
           \<lparr>gamepadState.x = 5, gamepadState.y = 5, gamepadState.rotation = 0,
            connected = True, shooting = sh, lastShotTime = t\<rparr>,
         heap = h, projectiles = ps,
         statusText = Summary ''pad'' 0 0 0 0 0 sh 1,
         animationFrameId = 1\<rparr>,
      scheduled = True\<rparr>"

definition shot :: "real \<Rightarrow> bool \<Rightarrow> projectile" where
  "shot px a =
     \<lparr>projectile.x = px, projectile.y = 30, projectile.rotation = 0, speed = 8, active = a\<rparr>"

text \<open>The state of the 800 by 600 session right after the controller has connected.\<close>

definition plugged :: demo where
  "plugged =
     (initialState canvas800)
       \<lparr>gamepadState := entityAt True False 0, statusText := ConnectedText ''pad''\<rparr>"

section \<open>The statements of the class, one by one\<close>

subsection \<open>The angle of a stick\<close>

text \<open>
  \<open>atan2 b a\<close> is the polar angle of the point \<open>(a, b)\<close>: it lies in \<open>(-\<pi>, \<pi>]\<close> and,
  away from the origin, its cosine and sine are the point's coordinates over its distance
  from the origin.
\<close>

lemma atan2_range: "- pi < atan2 b a \<and> atan2 b a \<le> pi"
proof -
  have lo: "- (pi / 2) < arctan (b / a)" and hi: "arctan (b / a) < pi / 2"
    by (rule arctan_lbound, rule arctan_ubound)
  have pos: "0 < pi" by (rule pi_gt_zero)
  show ?thesis
  proof (cases "0 < a")
    case True
    from lo hi pos have "- pi < arctan (b / a) \<and> arctan (b / a) \<le> pi"
      by linarith
    with True show ?thesis by (simp add: atan2_def)
  next
    case False
    show ?thesis
    proof (cases "a < 0")
      case neg: True
      show ?thesis
      proof (cases "0 \<le> b")
        case True
        with neg have "b / a \<le> 0" by (simp add: divide_nonneg_neg)
        then have "arctan (b / a) \<le> 0" by (simp add: arctan_le_zero_iff)
        with lo pos have "- pi < arctan (b / a) + pi \<and> arctan (b / a) + pi \<le> pi"
          by linarith
        with neg True show ?thesis by (simp add: atan2_def)
      next
        case nb: False
        with neg have "0 < b / a" by (simp add: divide_neg_neg)
        then have "0 < arctan (b / a)" by (simp add: zero_less_arctan_iff)
        with hi pos have "- pi < arctan (b / a) - pi \<and> arctan (b / a) - pi \<le> pi"
          by linarith
        with neg nb show ?thesis by (simp add: atan2_def)
      qed
    next
      case False
      from pos have "- pi < pi / 2 \<and> pi / 2 \<le> pi \<and> - pi < - (pi / 2) \<and> - (pi / 2) \<le> pi \<and>
          - pi < 0 \<and> 0 \<le> pi"
        by linarith
      with False \<open>\<not> 0 < a\<close> show ?thesis by (simp add: atan2_def)
    qed
  qed
qed

lemma cos_arctan_div:
  assumes "a \<noteq> 0"
  shows "cos (arctan (b / a)) = \<bar>a\<bar> / sqrt (a\<^sup>2 + b\<^sup>2)"
proof -
  have "1 + (b / a)\<^sup>2 = (a\<^sup>2 + b\<^sup>2) / a\<^sup>2"
    using assms by (simp add: power_divide add_divide_distrib)
  then have "sqrt (1 + (b / a)\<^sup>2) = sqrt (a\<^sup>2 + b\<^sup>2) / \<bar>a\<bar>"
    by (simp add: real_sqrt_divide)
  then show ?thesis
    by (simp add: cos_arctan)
qed

lemma sin_arctan_div:
  assumes "a \<noteq> 0"
  shows "sin (arctan (b / a)) = (b / a) * \<bar>a\<bar> / sqrt (a\<^sup>2 + b\<^sup>2)"
proof -
  have "1 + (b / a)\<^sup>2 = (a\<^sup>2 + b\<^sup>2) / a\<^sup>2"
    using assms by (simp add: power_divide add_divide_distrib)
  then have "sqrt (1 + (b / a)\<^sup>2) = sqrt (a\<^sup>2 + b\<^sup>2) / \<bar>a\<bar>"
    by (simp add: real_sqrt_divide)
  then show ?thesis
    by (simp add: sin_arctan)
qed

lemma atan2_polar:
  assumes "a \<noteq> 0 \<or> b \<noteq> 0"
  shows "cos (atan2 b a) = a / sqrt (a\<^sup>2 + b\<^sup>2)"
    and "sin (atan2 b a) = b / sqrt (a\<^sup>2 + b\<^sup>2)"
proof -
  consider (right) "0 < a" | (left_up) "a < 0" "0 \<le> b" | (left_down) "a < 0" "b < 0"
    | (up) "a = 0" "0 < b" | (down) "a = 0" "b < 0"
    using assms by fastforce
  then have "cos (atan2 b a) = a / sqrt (a\<^sup>2 + b\<^sup>2) \<and> sin (atan2 b a) = b / sqrt (a\<^sup>2 + b\<^sup>2)"
  proof cases
    case right
    then show ?thesis
      by (simp add: atan2_def cos_arctan_div sin_arctan_div)
  next
    case left_up
    then show ?thesis
      by (simp add: atan2_def cos_arctan_div sin_arctan_div)
  next
    case left_down
    then show ?thesis
      by (simp add: atan2_def cos_arctan_div sin_arctan_div cos_diff sin_diff)
  next
    case up
    then show ?thesis
      by (simp add: atan2_def)
  next
    case down
    then show ?thesis
      by (simp add: atan2_def)
  qed
  then show "cos (atan2 b a) = a / sqrt (a\<^sup>2 + b\<^sup>2)"
    and "sin (atan2 b a) = b / sqrt (a\<^sup>2 + b\<^sup>2)"
    by simp_all
qed

subsection \<open>Sticks, trigger and status\<close>

lemma moveHorizontal_eq:
  "moveHorizontal g gs = gs\<lparr>gamepadState.x := gamepadState.x gs + axisDelta (horizontalAxis g)\<rparr>"
  by (simp add: moveHorizontal_def axisDelta_def split: option.split)

lemma moveVertical_eq:
  "moveVertical g gs = gs\<lparr>gamepadState.y := gamepadState.y gs + axisDelta (verticalAxis g)\<rparr>"
  by (simp add: moveVertical_def axisDelta_def split: option.split)

lemma turn_eq:
  "turn g gs = gs\<lparr>gamepadState.rotation := heldRotation g (gamepadState.rotation gs)\<rparr>"
  by (simp add: turn_def heldRotation_def)

lemma keepInCanvas_eq:
  "keepInCanvas c gs =
     gs\<lparr>gamepadState.x := clampTo (real (width c) - 50) (gamepadState.x gs),
        gamepadState.y := clampTo (real (height c) - 50) (gamepadState.y gs)\<rparr>"
  by (simp add: keepInCanvas_def clampTo_def)

lemma applySticks_eq:
  "applySticks c g gs =
     gs\<lparr>gamepadState.x :=
          clampTo (real (width c) - 50) (gamepadState.x gs + axisDelta (horizontalAxis g)),
        gamepadState.y :=
          clampTo (real (height c) - 50) (gamepadState.y gs + axisDelta (verticalAxis g)),
        gamepadState.rotation := heldRotation g (gamepadState.rotation gs)\<rparr>"
  by (simp add: applySticks_def moveHorizontal_eq moveVertical_eq turn_eq keepInCanvas_eq)

lemma applySticks_lastShotTime: "lastShotTime (applySticks c g gs) = lastShotTime gs"
  by (simp add: applySticks_eq)

lemma applySticks_connected: "connected (applySticks c g gs) = connected gs"
  by (simp add: applySticks_eq)

lemma applySticks_x:
  "gamepadState.x (applySticks c g gs) =
     clampTo (real (width c) - 50) (gamepadState.x gs + axisDelta (horizontalAxis g))"
  by (simp add: applySticks_eq)

lemma applySticks_y:
  "gamepadState.y (applySticks c g gs) =
     clampTo (real (height c) - 50) (gamepadState.y gs + axisDelta (verticalAxis g))"
  by (simp add: applySticks_eq)


lemma shootProjectile_projectiles:
  "projectiles (shootProjectile t s) =
     (if t - lastShotTime (gamepadState s) > shootCooldown
      then projectiles s @ [length (heap s)] else projectiles s)"
  by (simp add: shootProjectile_def)

lemma shootProjectile_heap:
  "heap (shootProjectile t s) =
     (if t - lastShotTime (gamepadState s) > shootCooldown
      then heap s @ [\<lparr>projectile.x = gamepadState.x (gamepadState s) + 25,
                      projectile.y = gamepadState.y (gamepadState s) + 25,
                      projectile.rotation = gamepadState.rotation (gamepadState s),
                      speed = 8, active = True\<rparr>]
      else heap s)"
  by (simp add: shootProjectile_def)

lemma shootProjectile_gamepadState:
  "gamepadState (shootProjectile t s) =
     (if t - lastShotTime (gamepadState s) > shootCooldown
      then (gamepadState s)\<lparr>lastShotTime := t\<rparr> else gamepadState s)"
  by (simp add: shootProjectile_def)

lemma shootProjectile_blocked:
  "\<not> t - lastShotTime (gamepadState s) > shootCooldown \<Longrightarrow> shootProjectile t s = s"
  by (simp add: shootProjectile_def)

lemma handleTrigger_projectiles:
  "projectiles (handleTrigger t g s) =
     (if rightTrigger g then projectiles (shootProjectile t s) else projectiles s)"
  by (simp add: handleTrigger_def Let_def)

lemma handleTrigger_heap:
  "heap (handleTrigger t g s) = (if rightTrigger g then heap (shootProjectile t s) else heap s)"
  by (simp add: handleTrigger_def Let_def)

lemma handleTrigger_gamepadState:
  "gamepadState (handleTrigger t g s) =
     (if rightTrigger g then (gamepadState (shootProjectile t s))\<lparr>shooting := True\<rparr>
      else (gamepadState s)\<lparr>shooting := False\<rparr>)"
  by (simp add: handleTrigger_def Let_def)

lemma writeStatus_fst:
  "fst (writeStatus g s) = (if 2 \<le> length (axes g) then Normal () else Throw TypeError)"
  by (simp add: writeStatus_def horizontalAxis_def verticalAxis_def index_def)

lemma writeStatus_gamepadState: "gamepadState (snd (writeStatus g s)) = gamepadState s"
  by (simp add: writeStatus_def split: option.split)

lemma writeStatus_heap: "heap (snd (writeStatus g s)) = heap s"
  by (simp add: writeStatus_def split: option.split)

lemma writeStatus_projectiles: "projectiles (snd (writeStatus g s)) = projectiles s"
  by (simp add: writeStatus_def split: option.split)

lemma useGamepad_fst:
  "fst (useGamepad c t g s) = (if 2 \<le> length (axes g) then Normal () else Throw TypeError)"
  by (simp add: useGamepad_def Let_def writeStatus_fst)

lemma useGamepad_projectiles:
  "projectiles (snd (useGamepad c t g s)) =
     (if rightTrigger g \<and> t - lastShotTime (gamepadState s) > shootCooldown
      then projectiles s @ [length (heap s)] else projectiles s)"
  by (simp add: useGamepad_def Let_def writeStatus_projectiles handleTrigger_projectiles
      shootProjectile_projectiles applySticks_lastShotTime)

lemma useGamepad_heap:
  "heap (snd (useGamepad c t g s)) =
     (if rightTrigger g \<and> t - lastShotTime (gamepadState s) > shootCooldown
      then heap s @ [\<lparr>projectile.x = gamepadState.x (applySticks c g (gamepadState s)) + 25,
                      projectile.y = gamepadState.y (applySticks c g (gamepadState s)) + 25,
                      projectile.rotation = gamepadState.rotation (applySticks c g (gamepadState s)),
                      speed = 8, active = True\<rparr>]
      else heap s)"
  by (simp add: useGamepad_def Let_def writeStatus_heap handleTrigger_heap
      shootProjectile_heap applySticks_lastShotTime)

lemma useGamepad_gamepadState:
  "gamepadState (snd (useGamepad c t g s)) =
     (applySticks c g (gamepadState s))
       \<lparr>lastShotTime :=
          (if rightTrigger g \<and> t - lastShotTime (gamepadState s) > shootCooldown
           then t else lastShotTime (gamepadState s)),
        shooting := rightTrigger g\<rparr>"
  by (simp add: useGamepad_def Let_def writeStatus_gamepadState handleTrigger_gamepadState
      shootProjectile_gamepadState applySticks_lastShotTime)

lemma rightTrigger_pad: "rightTrigger (pad as rt) = rt"
  by (simp add: rightTrigger_def pad_def pressedAt_def index_def truthy_def)

lemma shootProjectile_twice:
  assumes "t - lastShotTime (gamepadState s) > shootCooldown" and "t' - t \<le> shootCooldown"
  shows "shootProjectile t' (shootProjectile t s) = shootProjectile t s"
proof -
  have "lastShotTime (gamepadState (shootProjectile t s)) = t"
    using assms(1) by (simp add: shootProjectile_gamepadState)
  then have "\<not> t' - lastShotTime (gamepadState (shootProjectile t s)) > shootCooldown"
    using assms(2) by simp
  then show ?thesis by (rule shootProjectile_blocked)
qed

lemma updateGamepadState_eq:
  "updateGamepadState c t gs s =
     (case firstGamepad gs of None \<Rightarrow> (Normal (), s) | Some g \<Rightarrow> useGamepad c t g s)"
  by (induction gs rule: firstGamepad.induct) simp_all

lemma axisDelta_deadZone: "\<bar>h\<bar> \<le> 0.1 \<Longrightarrow> axisDelta (Some h) = 0"
  by (simp add: axisDelta_def deadZone_def)

lemma clampTo_id: "0 \<le> v \<Longrightarrow> v \<le> hi \<Longrightarrow> clampTo hi v = v"
  by (simp add: clampTo_def)

lemma clampTo_range: "0 \<le> hi \<Longrightarrow> 0 \<le> clampTo hi v \<and> clampTo hi v \<le> hi"
  by (simp add: clampTo_def)

lemma useGamepad_x:
  "gamepadState.x (gamepadState (snd (useGamepad c t g s))) =
     clampTo (real (width c) - 50) (gamepadState.x (gamepadState s) + axisDelta (horizontalAxis g))"
  by (simp add: useGamepad_gamepadState applySticks_x)

lemma useGamepad_y:
  "gamepadState.y (gamepadState (snd (useGamepad c t g s))) =
     clampTo (real (height c) - 50) (gamepadState.y (gamepadState s) + axisDelta (verticalAxis g))"
  by (simp add: useGamepad_gamepadState applySticks_y)


lemma horizontalAxis_pad: "horizontalAxis (pad (a # as) rt) = Some a"
  by (simp add: horizontalAxis_def pad_def index_def)

lemma verticalAxis_pad: "verticalAxis (pad (a # b # as) rt) = Some b"
  by (simp add: verticalAxis_def pad_def index_def)





subsection \<open>The projectile loop\<close>

lemma moveProjectile_dead: "\<not> active p \<Longrightarrow> moveProjectile c p = p"
  by (simp add: moveProjectile_def)

lemma moveProjectile_x:
  "active p \<Longrightarrow>
     projectile.x (moveProjectile c p) = projectile.x p + cos (projectile.rotation p) * speed p"
  by (simp add: moveProjectile_def Let_def)

lemma moveProjectile_y:
  "active p \<Longrightarrow>
     projectile.y (moveProjectile c p) = projectile.y p + sin (projectile.rotation p) * speed p"
  by (simp add: moveProjectile_def Let_def)

lemma moveProjectile_rotation: "projectile.rotation (moveProjectile c p) = projectile.rotation p"
  by (simp add: moveProjectile_def Let_def)

lemma moveProjectile_speed: "speed (moveProjectile c p) = speed p"
  by (simp add: moveProjectile_def Let_def)

lemma moveProjectile_active:
  "active (moveProjectile c p) \<longleftrightarrow>
     active p \<and>
     \<not> (projectile.x p + cos (projectile.rotation p) * speed p < 0 \<or>
        projectile.x p + cos (projectile.rotation p) * speed p > real (width c) \<or>
        projectile.y p + sin (projectile.rotation p) * speed p < 0 \<or>
        projectile.y p + sin (projectile.rotation p) * speed p > real (height c))"
  by (simp add: moveProjectile_def Let_def)

lemma length_updateLoop: "length (updateLoop c rs h) = length h"
  by (induction rs arbitrary: h) simp_all

lemma updateLoop_notin: "r \<notin> set rs \<Longrightarrow> updateLoop c rs h ! r = h ! r"
  by (induction rs arbitrary: h) simp_all

lemma updateLoop_dead: "\<not> active (h ! r) \<Longrightarrow> updateLoop c rs h ! r = h ! r"
proof (induction rs arbitrary: h)
  case Nil
  then show ?case by simp
next
  case (Cons q rs)
  show ?case
  proof (cases "q = r")
    case True
    with Cons.prems have "h[q := moveProjectile c (h ! q)] = h"
      by (simp add: moveProjectile_dead)
    with Cons show ?thesis by simp
  next
    case False
    then have "h[q := moveProjectile c (h ! q)] ! r = h ! r" by simp
    with Cons show ?thesis by simp
  qed
qed

lemma updateLoop_in:
  "distinct rs \<Longrightarrow> r \<in> set rs \<Longrightarrow> r < length h \<Longrightarrow>
     updateLoop c rs h ! r = moveProjectile c (h ! r)"
proof (induction rs arbitrary: h)
  case Nil
  then show ?case by simp
next
  case (Cons q rs)
  show ?case
  proof (cases "q = r")
    case True
    with Cons.prems have "r \<notin> set rs" by simp
    then have "updateLoop c rs (h[r := moveProjectile c (h ! r)]) ! r =
        h[r := moveProjectile c (h ! r)] ! r"
      by (rule updateLoop_notin)
    with True Cons.prems show ?thesis by simp
  next
    case False
    with Cons.prems have "r \<in> set rs" "distinct rs" by simp_all
    then have "updateLoop c rs (h[q := moveProjectile c (h ! q)]) ! r =
        moveProjectile c (h[q := moveProjectile c (h ! q)] ! r)"
      using Cons.prems(3) by (intro Cons.IH) simp_all
    with False show ?thesis by simp
  qed
qed

lemma updateProjectiles_heap:
  "heap (updateProjectiles c s) = updateLoop c (projectiles s) (heap s)"
  by (simp add: updateProjectiles_def Let_def)

lemma updateProjectiles_gamepadState: "gamepadState (updateProjectiles c s) = gamepadState s"
  by (simp add: updateProjectiles_def Let_def)

lemma updateProjectiles_statusText: "statusText (updateProjectiles c s) = statusText s"
  by (simp add: updateProjectiles_def Let_def)

lemma updateProjectiles_projectiles:
  "projectiles (updateProjectiles c s) =
     (if length (projectiles s) > 100
      then filter (\<lambda>r. active (heap (updateProjectiles c s) ! r)) (projectiles s)
      else projectiles s)"
  by (simp add: updateProjectiles_def Let_def)

lemma wellFormed_updateProjectiles: "wellFormed s \<Longrightarrow> wellFormed (updateProjectiles c s)"
  by (simp add: wellFormed_def updateProjectiles_projectiles updateProjectiles_heap
      length_updateLoop list_all_iff)

lemma wellFormed_shootProjectile: "wellFormed s \<Longrightarrow> wellFormed (shootProjectile t s)"
  by (auto simp add: wellFormed_def shootProjectile_projectiles shootProjectile_heap list_all_iff)

lemma crowded_projectiles: "projectiles crowded = [0..<101]"
  by (simp add: crowded_def)

lemma crowded_alive:
  assumes "r < 101"
  shows "active (heap (updateProjectiles canvas800 crowded) ! r)"
proof -
  have h: "heap crowded ! r =
      \<lparr>projectile.x = 7 * real r, projectile.y = 300, projectile.rotation = 0,
       speed = 8, active = True\<rparr>"
    using assms by (simp add: crowded_def)
  have "heap (updateProjectiles canvas800 crowded) ! r = moveProjectile canvas800 (heap crowded ! r)"
    unfolding updateProjectiles_heap crowded_projectiles
    using assms by (intro updateLoop_in) (simp_all add: crowded_def)
  moreover have "active (moveProjectile canvas800 (heap crowded ! r))"
    using assms by (simp add: h moveProjectile_active canvas800_def)
  ultimately show ?thesis by simp
qed

lemma filter_length_less_iff:
  "length (filter P xs) < length xs \<longleftrightarrow> (\<exists>x\<in>set xs. \<not> P x)"
proof
  assume "length (filter P xs) < length xs"
  then have "filter P xs \<noteq> xs" by auto
  then show "\<exists>x\<in>set xs. \<not> P x" by (simp add: filter_id_conv)
next
  assume "\<exists>x\<in>set xs. \<not> P x"
  then show "length (filter P xs) < length xs" by (auto intro: length_filter_less)
qed

lemma updateLoop_all_dead: "\<forall>r\<in>set rs. \<not> active (h ! r) \<Longrightarrow> updateLoop c rs h = h"
  by (induction rs) (simp_all add: moveProjectile_dead)

subsection \<open>One tick and the page\<close>

lemma gameLoop_eq:
  "gameLoop c i s =
     (case fst (inputPhase c i s) of
        Throw e \<Rightarrow> (Throw e, snd (inputPhase c i s))
      | Normal u \<Rightarrow>
          (Normal (render (updateProjectiles c (snd (inputPhase c i s)))),
           (updateProjectiles c (snd (inputPhase c i s)))\<lparr>animationFrameId := frameId i\<rparr>))"
  by (simp add: gameLoop_def inputPhase_def Let_def split: prod.split completion.split)

lemma inputPhase_disconnected:
  "\<not> connected (gamepadState s) \<Longrightarrow> inputPhase c i s = (Normal (), s)"
  by (simp add: inputPhase_def)

lemma inputPhase_gamepad:
  "connected (gamepadState s) \<Longrightarrow> firstGamepad (gamepads i) = Some g \<Longrightarrow>
     inputPhase c i s = useGamepad c (now i) g s"
  by (simp add: inputPhase_def updateGamepadState_eq)

lemma inputPhase_no_gamepad:
  "firstGamepad (gamepads i) = None \<Longrightarrow> inputPhase c i s = (Normal (), s)"
  by (simp add: inputPhase_def updateGamepadState_eq)

lemma inputPhase_cases:
  obtains (idle) "inputPhase c i s = (Normal (), s)"
  | (used) g where "inputPhase c i s = useGamepad c (now i) g s"
  by (cases "connected (gamepadState s)"; cases "firstGamepad (gamepads i)")
    (simp_all add: inputPhase_def updateGamepadState_eq)

lemma gameLoop_disconnected:
  "\<not> connected (gamepadState s) \<Longrightarrow>
     gameLoop c i s =
       (Normal (render (updateProjectiles c s)),
        (updateProjectiles c s)\<lparr>animationFrameId := frameId i\<rparr>)"
  by (simp add: gameLoop_eq inputPhase_disconnected)

lemma gameLoop_gamepadState:
  "gamepadState (snd (gameLoop c i s)) = gamepadState (snd (inputPhase c i s))"
  by (simp add: gameLoop_eq updateProjectiles_gamepadState split: completion.split)

lemma gameLoop_heap:
  "heap (snd (gameLoop c i s)) =
     (case fst (inputPhase c i s) of
        Throw e \<Rightarrow> heap (snd (inputPhase c i s))
      | Normal u \<Rightarrow> heap (updateProjectiles c (snd (inputPhase c i s))))"
  by (simp add: gameLoop_eq split: completion.split)

lemma gameLoop_projectiles:
  "projectiles (snd (gameLoop c i s)) =
     (case fst (inputPhase c i s) of
        Throw e \<Rightarrow> projectiles (snd (inputPhase c i s))
      | Normal u \<Rightarrow> projectiles (updateProjectiles c (snd (inputPhase c i s))))"
  by (simp add: gameLoop_eq split: completion.split)

lemma app_afterTick: "app (afterTick r) = snd r"
  by (cases r; cases "fst r") (simp_all add: afterTick_def)

lemma scheduled_afterTick: "scheduled (afterTick r) \<longleftrightarrow> (\<exists>f. fst r = Normal f)"
  by (cases r; cases "fst r") (simp_all add: afterTick_def)

lemma runPage_append: "runPage c i (evs @ evs') = foldl (dispatch c) (runPage c i evs) evs'"
  by (simp add: runPage_def)

lemma runPage_snoc: "runPage c i (evs @ [e]) = dispatch c (runPage c i evs) e"
  by (simp add: runPage_def)

lemma runPage_Nil: "runPage c i [] = constructor c i"
  by (simp add: runPage_def)

lemma gameLoop_statusText_disconnected:
  "\<not> connected (gamepadState s) \<Longrightarrow> statusText (snd (gameLoop c i s)) = statusText s"
  by (simp add: gameLoop_disconnected updateProjectiles_statusText)

lemma shootProjectile_spawned:
  "t - lastShotTime (gamepadState s) > shootCooldown \<Longrightarrow>
     heap (shootProjectile t s) ! length (heap s) = newProjectile (gamepadState s)"
  by (simp add: shootProjectile_heap newProjectile_def)

lemma updateProjectiles_in:
  "wellFormed s \<Longrightarrow> r \<in> set (projectiles s) \<Longrightarrow>
     heap (updateProjectiles c s) ! r = moveProjectile c (heap s ! r)"
  unfolding updateProjectiles_heap
  by (rule updateLoop_in) (simp_all add: wellFormed_def list_all_iff)

lemma render_animationFrameId: "render (s\<lparr>animationFrameId := k\<rparr>) = render s"
  by (simp add: render_def renderProjectiles_def)

lemma gameLoop_render:
  "fst (inputPhase c i s) = Normal u \<Longrightarrow>
     fst (gameLoop c i s) = Normal (render (snd (gameLoop c i s)))"
  by (simp add: gameLoop_eq render_animationFrameId)

lemma gameLoop_throw:
  "fst (inputPhase c i s) = Throw e \<Longrightarrow> fst (gameLoop c i s) = Throw e"
  by (simp add: gameLoop_eq)

lemma moveProjectile_moves:
  assumes "active p" and "speed p \<noteq> 0"
  shows "(projectile.x (moveProjectile c p), projectile.y (moveProjectile c p)) \<noteq>
      (projectile.x p, projectile.y p)"
proof
  assume "(projectile.x (moveProjectile c p), projectile.y (moveProjectile c p)) =
      (projectile.x p, projectile.y p)"
  with assms have "cos (projectile.rotation p) = 0" "sin (projectile.rotation p) = 0"
    by (simp_all add: moveProjectile_x moveProjectile_y)
  then have "(sin (projectile.rotation p))\<^sup>2 + (cos (projectile.rotation p))\<^sup>2 = 0"
    by simp
  then show False by simp
qed

lemma renderProjectiles_shows:
  "r \<in> set (projectiles s) \<Longrightarrow> active (heap s ! r) \<Longrightarrow>
     (projectile.x (heap s ! r), projectile.y (heap s ! r)) \<in> set (discs (render s))"
  by (force simp add: render_def renderProjectiles_def)

lemma updateProjectiles_keeps:
  "r \<in> set (projectiles s) \<Longrightarrow> active (heap (updateProjectiles c s) ! r) \<Longrightarrow>
     r \<in> set (projectiles (updateProjectiles c s))"
  by (subst updateProjectiles_projectiles) simp

lemma missing_right_stick_and_buttons_read_as_zero:
  "length (axes g) \<le> 2 \<Longrightarrow> rightHorizontalAxis g = 0 \<and> rightVerticalAxis g = 0"
  "length (buttons g) \<le> 5 \<Longrightarrow> \<not> rightTrigger g"
  "2 \<le> length (axes g) \<Longrightarrow> fst (useGamepad c t g s) = Normal ()"
  "length (axes g) < 2 \<Longrightarrow> fst (useGamepad c t g s) = Throw TypeError"
  by (simp_all add: rightHorizontalAxis_def rightVerticalAxis_def rightTrigger_def pressedAt_def
      truthy_def index_def orZero_def useGamepad_fst)

section \<open>Invariants of the page\<close>

subsection \<open>The entity stays within the canvas\<close>

lemma inBounds_initialState:
  "inBounds c (gamepadState (initialState c)) \<longleftrightarrow> 50 \<le> width c \<and> 50 \<le> height c"
  by (auto simp add: inBounds_def initialState_def)

lemma inBounds_applySticks:
  "50 \<le> width c \<Longrightarrow> 50 \<le> height c \<Longrightarrow> inBounds c (applySticks c g gs)"
  by (simp add: inBounds_def applySticks_x applySticks_y clampTo_range)

lemma inBounds_fields:
  "gamepadState.x gs' = gamepadState.x gs \<Longrightarrow> gamepadState.y gs' = gamepadState.y gs \<Longrightarrow>
     inBounds c gs' = inBounds c gs"
  by (simp add: inBounds_def)

lemma inBounds_useGamepad:
  "50 \<le> width c \<Longrightarrow> 50 \<le> height c \<Longrightarrow> inBounds c (gamepadState (snd (useGamepad c t g s)))"
  using inBounds_applySticks [of c g "gamepadState s"]
  by (simp add: inBounds_def useGamepad_gamepadState)

lemma inBounds_inputPhase:
  assumes "50 \<le> width c" "50 \<le> height c" "inBounds c (gamepadState s)"
  shows "inBounds c (gamepadState (snd (inputPhase c i s)))"
proof (cases c i s rule: inputPhase_cases)
  case idle
  with assms show ?thesis by simp
next
  case (used g)
  with assms show ?thesis by (simp add: inBounds_useGamepad)
qed

lemma inBounds_gameLoop:
  "50 \<le> width c \<Longrightarrow> 50 \<le> height c \<Longrightarrow> inBounds c (gamepadState s) \<Longrightarrow>
     inBounds c (gamepadState (snd (gameLoop c i s)))"
  by (simp add: gameLoop_gamepadState inBounds_inputPhase)

lemma inBounds_dispatch:
  assumes "50 \<le> width c" "50 \<le> height c" "inBounds c (gamepadState (app pg))"
  shows "inBounds c (gamepadState (app (dispatch c pg e)))"
proof (cases e)
  case (AnimationFrame i)
  with assms show ?thesis by (simp add: app_afterTick inBounds_gameLoop)
next
  case (GamepadConnected ident)
  with assms show ?thesis by (simp add: onGamepadConnected_def inBounds_def)
next
  case GamepadDisconnected
  with assms show ?thesis by (simp add: onGamepadDisconnected_def inBounds_def)
qed

lemma inBounds_foldl:
  "50 \<le> width c \<Longrightarrow> 50 \<le> height c \<Longrightarrow> inBounds c (gamepadState (app pg)) \<Longrightarrow>
     inBounds c (gamepadState (app (foldl (dispatch c) pg evs)))"
  by (induction evs arbitrary: pg) (simp_all add: inBounds_dispatch)

lemma inBounds_constructor:
  "50 \<le> width c \<Longrightarrow> 50 \<le> height c \<Longrightarrow> inBounds c (gamepadState (app (constructor c i)))"
  by (simp add: constructor_def app_afterTick inBounds_gameLoop inBounds_initialState)

lemma inBounds_runPage:
  "50 \<le> width c \<Longrightarrow> 50 \<le> height c \<Longrightarrow> inBounds c (gamepadState (app (runPage c i evs)))"
  by (simp add: runPage_def inBounds_foldl inBounds_constructor)

subsection \<open>The references stay distinct and valid\<close>

lemma wellFormed_fields:
  "heap s' = heap s \<Longrightarrow> projectiles s' = projectiles s \<Longrightarrow> wellFormed s' = wellFormed s"
  by (simp add: wellFormed_def)

lemma wellFormed_handleTrigger: "wellFormed s \<Longrightarrow> wellFormed (handleTrigger t g s)"
  using wellFormed_shootProjectile [of s t]
  by (simp add: wellFormed_def handleTrigger_heap handleTrigger_projectiles)

lemma wellFormed_useGamepad: "wellFormed s \<Longrightarrow> wellFormed (snd (useGamepad c t g s))"
proof -
  assume "wellFormed s"
  then have "wellFormed (s\<lparr>gamepadState := applySticks c g (gamepadState s)\<rparr>)"
    by (simp add: wellFormed_def)
  then have "wellFormed (handleTrigger t g (s\<lparr>gamepadState := applySticks c g (gamepadState s)\<rparr>))"
    by (rule wellFormed_handleTrigger)
  then show ?thesis
    by (simp add: useGamepad_def Let_def wellFormed_def writeStatus_heap writeStatus_projectiles)
qed

lemma wellFormed_inputPhase: "wellFormed s \<Longrightarrow> wellFormed (snd (inputPhase c i s))"
  by (cases c i s rule: inputPhase_cases) (simp_all add: wellFormed_useGamepad)

lemma wellFormed_gameLoop: "wellFormed s \<Longrightarrow> wellFormed (snd (gameLoop c i s))"
  using wellFormed_inputPhase [of s c i]
    wellFormed_updateProjectiles [of "snd (inputPhase c i s)" c]
  by (simp add: gameLoop_eq wellFormed_def split: completion.split)

lemma wellFormed_dispatch:
  assumes "wellFormed (app pg)"
  shows "wellFormed (app (dispatch c pg e))"
proof (cases e)
  case (AnimationFrame i)
  with assms show ?thesis by (simp add: app_afterTick wellFormed_gameLoop)
next
  case (GamepadConnected ident)
  with assms show ?thesis by (simp add: onGamepadConnected_def wellFormed_def)
next
  case GamepadDisconnected
  with assms show ?thesis by (simp add: onGamepadDisconnected_def wellFormed_def)
qed

lemma wellFormed_foldl:
  "wellFormed (app pg) \<Longrightarrow> wellFormed (app (foldl (dispatch c) pg evs))"
  by (induction evs arbitrary: pg) (simp_all add: wellFormed_dispatch)

lemma wellFormed_initialState: "wellFormed (initialState c)"
  by (simp add: wellFormed_def initialState_def)

lemma wellFormed_runPage: "wellFormed (app (runPage c i evs))"
  by (simp add: runPage_def constructor_def app_afterTick wellFormed_foldl wellFormed_gameLoop
      wellFormed_initialState)

subsection \<open>A projectile that is not active is never touched again\<close>

lemma preserved_refl: "preserved h h"
  by (simp add: preserved_def)

lemma preserved_trans: "preserved h h' \<Longrightarrow> preserved h' h'' \<Longrightarrow> preserved h h''"
  unfolding preserved_def
proof (intro conjI allI impI)
  assume a: "length h \<le> length h' \<and> (\<forall>r<length h. \<not> active (h ! r) \<longrightarrow> h' ! r = h ! r)"
    and b: "length h' \<le> length h'' \<and> (\<forall>r<length h'. \<not> active (h' ! r) \<longrightarrow> h'' ! r = h' ! r)"
  from a b show "length h \<le> length h''" by simp
  fix r
  assume r: "r < length h" and dead: "\<not> active (h ! r)"
  with a have eq: "h' ! r = h ! r" by simp
  from a r have "r < length h'" by simp
  with b dead eq have "h'' ! r = h' ! r" by simp
  with eq show "h'' ! r = h ! r" by simp
qed

lemma preserved_updateLoop: "preserved h (updateLoop c rs h)"
  by (simp add: preserved_def length_updateLoop updateLoop_dead)

lemma preserved_updateProjectiles: "preserved (heap s) (heap (updateProjectiles c s))"
  by (simp add: updateProjectiles_heap preserved_updateLoop)

lemma preserved_append: "preserved h (h @ hs)"
  by (simp add: preserved_def nth_append)

lemma preserved_shootProjectile: "preserved (heap s) (heap (shootProjectile t s))"
  by (simp add: shootProjectile_heap preserved_append preserved_refl)

lemma preserved_useGamepad: "preserved (heap s) (heap (snd (useGamepad c t g s)))"
  by (simp add: useGamepad_heap preserved_append preserved_refl)

lemma preserved_inputPhase: "preserved (heap s) (heap (snd (inputPhase c i s)))"
  by (cases c i s rule: inputPhase_cases) (simp_all add: preserved_useGamepad preserved_refl)

lemma preserved_gameLoop: "preserved (heap s) (heap (snd (gameLoop c i s)))"
proof (cases "fst (inputPhase c i s)")
  case (Normal u)
  then have "heap (snd (gameLoop c i s)) = heap (updateProjectiles c (snd (inputPhase c i s)))"
    by (simp add: gameLoop_heap)
  with preserved_trans [OF preserved_inputPhase preserved_updateProjectiles]
  show ?thesis by simp
next
  case (Throw e)
  then have "heap (snd (gameLoop c i s)) = heap (snd (inputPhase c i s))"
    by (simp add: gameLoop_heap)
  with preserved_inputPhase show ?thesis by simp
qed

lemma preserved_dispatch: "preserved (heap (app pg)) (heap (app (dispatch c pg e)))"
  by (cases e)
    (simp_all add: app_afterTick preserved_gameLoop preserved_refl onGamepadConnected_def
      onGamepadDisconnected_def)

lemma preserved_foldl: "preserved (heap (app pg)) (heap (app (foldl (dispatch c) pg evs)))"
proof (induction evs arbitrary: pg)
  case Nil
  show ?case by (simp add: preserved_refl)
next
  case (Cons e evs)
  from preserved_trans [OF preserved_dispatch Cons.IH]
  show ?case by simp
qed

lemma preserved_runPage:
  "preserved (heap (app (runPage c i evs))) (heap (app (runPage c i (evs @ evs'))))"
  by (simp add: runPage_append preserved_foldl)

section \<open>A concrete session\<close>

lemmas eval_defs =
  gameLoop_def updateGamepadState_eq useGamepad_def applySticks_eq handleTrigger_def
  writeStatus_def shootProjectile_def updateProjectiles_def moveProjectile_def render_def
  renderProjectiles_def afterTick_def onGamepadConnected_def onGamepadDisconnected_def
  horizontalAxis_def verticalAxis_def rightHorizontalAxis_def rightVerticalAxis_def
  rightTrigger_pad axisDelta_def clampTo_def heldRotation_def deadZone_def shootCooldown_def
  index_def orZero_def Let_def

lemma pad_axes: "axes (pad as rt) = as" "gid (pad as rt) = ''pad''"
  by (simp_all add: pad_def)

lemma constructor_canvas800:
  "constructor canvas800 frame0 = \<lparr>app = initialState canvas800, scheduled = True\<rparr>"
  by (simp add: constructor_def eval_defs initialState_def frame0_def)

lemma dispatch_connected:
  "dispatch canvas800 \<lparr>app = initialState canvas800, scheduled = True\<rparr> (GamepadConnected ''pad'') =
     \<lparr>app = (initialState canvas800)
        \<lparr>gamepadState := entityAt True False 0, statusText := ConnectedText ''pad''\<rparr>,
      scheduled = True\<rparr>"
  by (simp add: eval_defs initialState_def entityAt_def canvas800_def)

lemma dispatch_fire:
  "dispatch canvas800
     \<lparr>app = (initialState canvas800)
        \<lparr>gamepadState := entityAt True False 0, statusText := ConnectedText ''pad''\<rparr>,
      scheduled = True\<rparr>
     (AnimationFrame (frameAt 1000 (pad [0, 0, 0, 0] True))) = shotFired"
  by (simp add: eval_defs pad_axes initialState_def entityAt_def bullet_def frameAt_def
      canvas800_def shotFired_def)

lemma dispatch_unplug: "dispatch canvas800 shotFired GamepadDisconnected = unplugged"
  by (simp add: eval_defs shotFired_def unplugged_def entityAt_def)

lemma dispatch_unplugged_tick:
  "dispatch canvas800 unplugged (AnimationFrame (frameAt 1016 (pad [0, 0, 0, 0] True))) =
     unplugged\<lparr>app := (app unplugged)\<lparr>heap := [bullet 416]\<rparr>\<rparr>"
  by (simp add: eval_defs unplugged_def entityAt_def bullet_def frameAt_def canvas800_def)

lemma runPage_unplugged:
  "runPage canvas800 frame0
     [GamepadConnected ''pad'', AnimationFrame (frameAt 1000 (pad [0, 0, 0, 0] True)),
      GamepadDisconnected] = unplugged"
  by (simp add: runPage_def constructor_canvas800 dispatch_connected dispatch_fire
      dispatch_unplug del: dispatch.simps)

lemma runPage_unplugTrace: "runPage canvas800 frame0 unplugTrace = unplugged"
  by (simp add: unplugTrace_def runPage_unplugged)

lemma runPage_exitTrace:
  "runPage canvas60 frame0 exitTrace = small False 1000 [shot 62 False] [0]"
  by (simp add: runPage_def constructor_def exitTrace_def eval_defs pad_axes initialState_def
      frame0_def frameAt_def canvas60_def small_def shot_def)

lemma runPage_exitTrace_again:
  "runPage canvas60 frame0 (exitTrace @ [AnimationFrame (frameAt 1300 (pad [0, 0, 0, 0] True))]) =
     small True 1300 [shot 62 False, shot 38 True] [0, 1]"
  unfolding runPage_snoc runPage_exitTrace
  by (simp add: eval_defs pad_axes frameAt_def canvas60_def small_def shot_def)

lemma runPage_plugged:
  "runPage canvas800 frame0 [GamepadConnected ''pad''] = \<lparr>app = plugged, scheduled = True\<rparr>"
  by (simp add: runPage_def constructor_canvas800 dispatch_connected plugged_def
      del: dispatch.simps)

lemma gameLoop_plugged_fire:
  "gameLoop canvas800 (frameAt 1000 (pad [0, 0, 0, 0] True)) plugged =
     (Normal \<lparr>discs = [(408, 300)], translate = (400, 300), rotate = 0, fillStyle = ''#e74c3c''\<rparr>,
      app shotFired)"
  by (simp add: eval_defs pad_axes plugged_def initialState_def entityAt_def bullet_def
      frameAt_def canvas800_def shotFired_def)

lemma gameLoop_plugged_no_axes:
  "gameLoop canvas800 (frameAt 1000 (pad [] rt)) plugged =
     (Throw TypeError,
      (if rt then shootProjectile 1000 plugged else plugged)
        \<lparr>gamepadState := entityAt True rt (if rt then 1000 else 0)\<rparr>)"
  by (simp add: eval_defs pad_axes plugged_def initialState_def entityAt_def frameAt_def
      canvas800_def)

lemma gameLoop_plugged_released_no_axes:
  "gameLoop canvas800 (frameAt 1000 (pad [] False)) plugged = (Throw TypeError, plugged)"
  by (simp add: gameLoop_plugged_no_axes) (simp add: plugged_def)

section \<open>Fire-rate limiting\<close>

text \<open>
  Claim C2, as the code has it. A call of \<^verbatim>\<open>shootProjectile\<close> at time \<open>t\<close> spawns
  exactly when strictly more than \<open>shootCooldown\<close> (250 ms) has passed since the recorded
  time of the last spawn: it then pushes one reference to a fresh object and records \<open>t\<close>;
  otherwise it changes nothing. A second call within 250 ms of a spawning one spawns
  nothing, so the two calls together add one projectile. In a frame whose trigger reads as
  pressed, the array and the recorded time are those \<^verbatim>\<open>shootProjectile\<close> leaves.
\<close>

theorem shootProjectile_cooldown:
  "(length (projectiles (shootProjectile t s)) = Suc (length (projectiles s))
      \<longleftrightarrow> t - lastShotTime (gamepadState s) > shootCooldown) \<and>
   (t - lastShotTime (gamepadState s) > shootCooldown \<longrightarrow>
      projectiles (shootProjectile t s) = projectiles s @ [length (heap s)] \<and>
      lastShotTime (gamepadState (shootProjectile t s)) = t) \<and>
   (\<not> t - lastShotTime (gamepadState s) > shootCooldown \<longrightarrow> shootProjectile t s = s) \<and>
   (t - lastShotTime (gamepadState s) > shootCooldown \<and> t' - t \<le> shootCooldown \<longrightarrow>
      shootProjectile t' (shootProjectile t s) = shootProjectile t s) \<and>
   (rightTrigger g \<longrightarrow>
      projectiles (snd (useGamepad c t g s)) = projectiles (shootProjectile t s) \<and>
      lastShotTime (gamepadState (snd (useGamepad c t g s))) =
        lastShotTime (gamepadState (shootProjectile t s)))"
proof (intro conjI impI)
  show "length (projectiles (shootProjectile t s)) = Suc (length (projectiles s))
      \<longleftrightarrow> t - lastShotTime (gamepadState s) > shootCooldown"
    by (simp add: shootProjectile_projectiles)
next
  assume "t - lastShotTime (gamepadState s) > shootCooldown \<and> t' - t \<le> shootCooldown"
  then show "shootProjectile t' (shootProjectile t s) = shootProjectile t s"
    using shootProjectile_twice by blast
next
  assume "\<not> t - lastShotTime (gamepadState s) > shootCooldown"
  then show "shootProjectile t s = s" by (rule shootProjectile_blocked)
next
  assume "rightTrigger g"
  then show "projectiles (snd (useGamepad c t g s)) = projectiles (shootProjectile t s)"
    by (simp add: useGamepad_projectiles shootProjectile_projectiles)
next
  assume "rightTrigger g"
  then show "lastShotTime (gamepadState (snd (useGamepad c t g s))) =
        lastShotTime (gamepadState (shootProjectile t s))"
    by (simp add: useGamepad_gamepadState shootProjectile_gamepadState)
qed (simp_all add: shootProjectile_projectiles shootProjectile_gamepadState)

theorem shootProjectile_cooldown_witness:
  "(1000::int) - lastShotTime (gamepadState (initialState canvas800)) > shootCooldown \<and>
   (1200::int) - 1000 \<le> shootCooldown \<and>
   rightTrigger (pad [0, 0, 0, 0] True) \<and>
   projectiles (shootProjectile 1000 (initialState canvas800)) = [0] \<and>
   lastShotTime (gamepadState (shootProjectile 1000 (initialState canvas800))) = 1000 \<and>
   shootProjectile 1200 (shootProjectile 1000 (initialState canvas800)) =
     shootProjectile 1000 (initialState canvas800) \<and>
   projectiles (snd (useGamepad canvas800 1000 (pad [0, 0, 0, 0] True) (initialState canvas800)))
     = [0]"
proof -
  have a: "(1000::int) - lastShotTime (gamepadState (initialState canvas800)) > shootCooldown"
    by (simp add: initialState_def shootCooldown_def)
  have b: "(1200::int) - 1000 \<le> shootCooldown"
    by (simp add: shootCooldown_def)
  have c: "rightTrigger (pad [0, 0, 0, 0] True)"
    by (simp add: rightTrigger_pad)
  have d: "projectiles (initialState canvas800) @ [length (heap (initialState canvas800))] = [0]"
    by (simp add: initialState_def)
  show ?thesis
    using a b c d
      shootProjectile_cooldown
        [of 1000 "initialState canvas800" 1200 "pad [0, 0, 0, 0] True" canvas800]
    by simp
qed

text \<open>
  The claim as the specification words it ("at least 250 ms") fails at exactly 250 ms: a
  shot at time 1000 spawns, and a frame at time 1250 with the trigger pressed spawns nothing.
\<close>

theorem shootProjectile_at_cooldown_counterexample:
  "(1250::int) - lastShotTime (gamepadState (shootProjectile 1000 (initialState canvas800)))
     \<ge> shootCooldown \<and>
   rightTrigger (pad [0, 0, 0, 0] True) \<and>
   projectiles (snd (useGamepad canvas800 1250 (pad [0, 0, 0, 0] True)
       (shootProjectile 1000 (initialState canvas800)))) =
     projectiles (shootProjectile 1000 (initialState canvas800))"
  by (simp add: useGamepad_projectiles rightTrigger_pad shootProjectile_gamepadState
      shootProjectile_projectiles initialState_def shootCooldown_def)

section \<open>A tick while disconnected\<close>

text \<open>
  Claim C1, as the code has it. A tick with the connectivity flag false skips the input
  sampling: the entity's position, orientation, firing flag and last shot time, and the
  status text, are unchanged, no projectile is created, and the frame is drawn. The
  projectile pass still runs: the store is what the update loop makes of it and the array is
  compacted as usual. In a state whose references are distinct and valid, every stored
  projectile gets the one update of the loop body, so every active projectile moves one
  step, by \<open>cos angle * speed\<close> along \<open>x\<close> and \<open>sin angle * speed\<close> along \<open>y\<close>, while a
  projectile that is not active is left as it is. When no stored projectile is active and
  there are at most 100, store and array are unchanged.
\<close>

theorem disconnected_tick:
  "\<not> connected (gamepadState s) \<longrightarrow>
     fst (gameLoop c i s) = Normal (render (updateProjectiles c s)) \<and>
     gamepadState (snd (gameLoop c i s)) = gamepadState s \<and>
     statusText (snd (gameLoop c i s)) = statusText s \<and>
     heap (snd (gameLoop c i s)) = updateLoop c (projectiles s) (heap s) \<and>
     projectiles (snd (gameLoop c i s)) = projectiles (updateProjectiles c s) \<and>
     length (heap (snd (gameLoop c i s))) = length (heap s) \<and>
     (\<forall>r. \<not> active (heap s ! r) \<longrightarrow> heap (snd (gameLoop c i s)) ! r = heap s ! r) \<and>
     ((\<forall>r\<in>set (projectiles s). \<not> active (heap s ! r)) \<and> length (projectiles s) \<le> 100 \<longrightarrow>
        heap (snd (gameLoop c i s)) = heap s \<and> projectiles (snd (gameLoop c i s)) = projectiles s) \<and>
     (wellFormed s \<and> q \<in> set (projectiles s) \<longrightarrow>
        heap (snd (gameLoop c i s)) ! q = moveProjectile c (heap s ! q)) \<and>
     (wellFormed s \<and> q \<in> set (projectiles s) \<and> active (heap s ! q) \<longrightarrow>
        projectile.x (heap (snd (gameLoop c i s)) ! q) =
          projectile.x (heap s ! q) + cos (projectile.rotation (heap s ! q)) * speed (heap s ! q) \<and>
        projectile.y (heap (snd (gameLoop c i s)) ! q) =
          projectile.y (heap s ! q) + sin (projectile.rotation (heap s ! q)) * speed (heap s ! q))"
proof (intro impI)
  assume off: "\<not> connected (gamepadState s)"
  have h: "heap (snd (gameLoop c i s)) = updateLoop c (projectiles s) (heap s)"
    using off by (simp add: gameLoop_disconnected updateProjectiles_heap)
  have p: "projectiles (snd (gameLoop c i s)) = projectiles (updateProjectiles c s)"
    using off by (simp add: gameLoop_disconnected)
  have pass: "heap (snd (gameLoop c i s)) = heap (updateProjectiles c s)"
    by (simp add: h updateProjectiles_heap)
  have each: "wellFormed s \<and> q \<in> set (projectiles s) \<longrightarrow>
      heap (snd (gameLoop c i s)) ! q = moveProjectile c (heap s ! q)"
    by (simp add: pass updateProjectiles_in)
  have live: "wellFormed s \<and> q \<in> set (projectiles s) \<and> active (heap s ! q) \<longrightarrow>
      projectile.x (heap (snd (gameLoop c i s)) ! q) =
        projectile.x (heap s ! q) + cos (projectile.rotation (heap s ! q)) * speed (heap s ! q) \<and>
      projectile.y (heap (snd (gameLoop c i s)) ! q) =
        projectile.y (heap s ! q) + sin (projectile.rotation (heap s ! q)) * speed (heap s ! q)"
    by (simp add: pass updateProjectiles_in moveProjectile_x moveProjectile_y)
  have "fst (gameLoop c i s) = Normal (render (updateProjectiles c s))"
    using off by (simp add: gameLoop_disconnected)
  moreover have "gamepadState (snd (gameLoop c i s)) = gamepadState s"
    using off by (simp add: gameLoop_disconnected updateProjectiles_gamepadState)
  moreover have "statusText (snd (gameLoop c i s)) = statusText s"
    using off by (rule gameLoop_statusText_disconnected)
  moreover have "length (heap (snd (gameLoop c i s))) = length (heap s)"
    by (simp add: h length_updateLoop)
  moreover have "\<forall>r. \<not> active (heap s ! r) \<longrightarrow> heap (snd (gameLoop c i s)) ! r = heap s ! r"
    by (simp add: h updateLoop_dead)
  moreover have "(\<forall>r\<in>set (projectiles s). \<not> active (heap s ! r)) \<and> length (projectiles s) \<le> 100 \<longrightarrow>
      heap (snd (gameLoop c i s)) = heap s \<and> projectiles (snd (gameLoop c i s)) = projectiles s"
    by (simp add: h p updateLoop_all_dead updateProjectiles_projectiles)
  ultimately show "fst (gameLoop c i s) = Normal (render (updateProjectiles c s)) \<and>
     gamepadState (snd (gameLoop c i s)) = gamepadState s \<and>
     statusText (snd (gameLoop c i s)) = statusText s \<and>
     heap (snd (gameLoop c i s)) = updateLoop c (projectiles s) (heap s) \<and>
     projectiles (snd (gameLoop c i s)) = projectiles (updateProjectiles c s) \<and>
     length (heap (snd (gameLoop c i s))) = length (heap s) \<and>
     (\<forall>r. \<not> active (heap s ! r) \<longrightarrow> heap (snd (gameLoop c i s)) ! r = heap s ! r) \<and>
     ((\<forall>r\<in>set (projectiles s). \<not> active (heap s ! r)) \<and> length (projectiles s) \<le> 100 \<longrightarrow>
        heap (snd (gameLoop c i s)) = heap s \<and> projectiles (snd (gameLoop c i s)) = projectiles s) \<and>
     (wellFormed s \<and> q \<in> set (projectiles s) \<longrightarrow>
        heap (snd (gameLoop c i s)) ! q = moveProjectile c (heap s ! q)) \<and>
     (wellFormed s \<and> q \<in> set (projectiles s) \<and> active (heap s ! q) \<longrightarrow>
        projectile.x (heap (snd (gameLoop c i s)) ! q) =
          projectile.x (heap s ! q) + cos (projectile.rotation (heap s ! q)) * speed (heap s ! q) \<and>
        projectile.y (heap (snd (gameLoop c i s)) ! q) =
          projectile.y (heap s ! q) + sin (projectile.rotation (heap s ! q)) * speed (heap s ! q))"
    using h p each live by blast
qed

text \<open>
  Two instances: the session above, disconnected with its projectile in flight at
  \<open>(408, 300)\<close>, where one more tick leaves the entity alone and moves the projectile to
  \<open>(416, 300)\<close>; and the same state with the projectile no longer active, where the tick
  changes neither store nor array.
\<close>

theorem disconnected_tick_witness:
  "\<not> connected (gamepadState (app unplugged)) \<and>
   wellFormed (app unplugged) \<and>
   0 \<in> set (projectiles (app unplugged)) \<and>
   active (heap (app unplugged) ! 0) \<and>
   heap (app unplugged) ! 0 = bullet 408 \<and>
   gamepadState (snd (gameLoop canvas800 frame0 (app unplugged))) = gamepadState (app unplugged) \<and>
   heap (snd (gameLoop canvas800 frame0 (app unplugged))) ! 0 = bullet 416 \<and>
   projectile.x (heap (snd (gameLoop canvas800 frame0 (app unplugged))) ! 0) = 416 \<and>
   projectile.y (heap (snd (gameLoop canvas800 frame0 (app unplugged))) ! 0) = 300 \<and>
   \<not> connected (gamepadState spent) \<and>
   list_all (\<lambda>r. \<not> active (heap spent ! r)) (projectiles spent) \<and>
   length (projectiles spent) \<le> 100 \<and>
   gamepadState (snd (gameLoop canvas800 frame0 spent)) = gamepadState spent \<and>
   heap (snd (gameLoop canvas800 frame0 spent)) = heap spent \<and>
   projectiles (snd (gameLoop canvas800 frame0 spent)) = projectiles spent"
proof -
  let ?u = "app unplugged"
  let ?u' = "snd (gameLoop canvas800 frame0 ?u)"
  have uoff: "\<not> connected (gamepadState ?u)"
    by (simp add: unplugged_def entityAt_def)
  have uwf: "wellFormed ?u"
    by (simp add: wellFormed_def unplugged_def)
  have umem: "0 \<in> set (projectiles ?u)"
    by (simp add: unplugged_def)
  have uat: "heap ?u ! 0 = bullet 408"
    by (simp add: unplugged_def)
  have uact: "active (heap ?u ! 0)"
    by (simp add: uat bullet_def)
  have step: "moveProjectile canvas800 (bullet 408) = bullet 416"
    by (simp add: moveProjectile_def bullet_def canvas800_def)
  note fly = disconnected_tick [of ?u canvas800 frame0 0]
  from fly uoff have ugs: "gamepadState ?u' = gamepadState ?u"
    by blast
  from fly uoff uwf umem have "heap ?u' ! 0 = moveProjectile canvas800 (heap ?u ! 0)"
    by blast
  then have moved: "heap ?u' ! 0 = bullet 416"
    by (simp add: uat step)
  from fly uoff uwf umem uact
  have "projectile.x (heap ?u' ! 0) =
      projectile.x (heap ?u ! 0) + cos (projectile.rotation (heap ?u ! 0)) * speed (heap ?u ! 0) \<and>
    projectile.y (heap ?u' ! 0) =
      projectile.y (heap ?u ! 0) + sin (projectile.rotation (heap ?u ! 0)) * speed (heap ?u ! 0)"
    by blast
  then have ux: "projectile.x (heap ?u' ! 0) = 416" and uy: "projectile.y (heap ?u' ! 0) = 300"
    by (simp_all add: uat bullet_def)
  have off: "\<not> connected (gamepadState spent)"
    by (simp add: spent_def unplugged_def entityAt_def)
  have dead: "\<forall>r\<in>set (projectiles spent). \<not> active (heap spent ! r)"
    by (simp add: spent_def unplugged_def bullet_def)
  have few: "length (projectiles spent) \<le> 100"
    by (simp add: spent_def unplugged_def)
  note tick = disconnected_tick [of spent canvas800 frame0 0]
  from tick off have gs: "gamepadState (snd (gameLoop canvas800 frame0 spent)) = gamepadState spent"
    by blast
  from tick off dead few
  have same: "heap (snd (gameLoop canvas800 frame0 spent)) = heap spent"
    "projectiles (snd (gameLoop canvas800 frame0 spent)) = projectiles spent"
    by blast+
  from dead have dead': "list_all (\<lambda>r. \<not> active (heap spent ! r)) (projectiles spent)"
    by (simp add: list_all_iff)
  show ?thesis
    by (intro conjI uoff uwf umem uact uat ugs moved ux uy off dead' few gs same)
qed

text \<open>
  The projectile list does change: after the session above the controller is disconnected
  and the projectile is at \<open>x = 408\<close>; one more tick moves it to \<open>x = 416\<close>.
\<close>

theorem disconnected_tick_moves_projectile_counterexample:
  "\<not> connected (gamepadState (app (runPage canvas800 frame0 unplugTrace))) \<and>
   projectiles (app (runPage canvas800 frame0 unplugTrace)) = [0] \<and>
   projectile.x (heap (app (runPage canvas800 frame0 unplugTrace)) ! 0) = 408 \<and>
   projectile.x
     (heap (snd (gameLoop canvas800 (frameAt 1016 (pad [0, 0, 0, 0] True))
        (app (runPage canvas800 frame0 unplugTrace)))) ! 0) = 416"
  unfolding runPage_unplugTrace
  by (simp add: eval_defs unplugged_def entityAt_def bullet_def frameAt_def canvas800_def)

section \<open>Dead zone\<close>

text \<open>
  Claim C4. When the first controller's left-stick horizontal reading has magnitude at most
  0.1, \<^verbatim>\<open>updateGamepadState\<close> adds nothing to the entity's \<open>x\<close>: the new \<open>x\<close> is the clamp of
  the old one, and the old one itself when it was within the canvas. The same holds for the
  vertical reading and \<open>y\<close>, whatever the other axis reads.
\<close>

theorem deadZone_zero_delta:
  "(firstGamepad gs = Some g \<and> horizontalAxis g = Some h \<and> \<bar>h\<bar> \<le> 0.1 \<longrightarrow>
      gamepadState.x (gamepadState (snd (updateGamepadState c t gs s))) =
        max 0 (min (real (width c) - 50) (gamepadState.x (gamepadState s))) \<and>
      (0 \<le> gamepadState.x (gamepadState s) \<and>
       gamepadState.x (gamepadState s) \<le> real (width c) - 50 \<longrightarrow>
         gamepadState.x (gamepadState (snd (updateGamepadState c t gs s))) =
           gamepadState.x (gamepadState s))) \<and>
   (firstGamepad gs = Some g \<and> verticalAxis g = Some v \<and> \<bar>v\<bar> \<le> 0.1 \<longrightarrow>
      gamepadState.y (gamepadState (snd (updateGamepadState c t gs s))) =
        max 0 (min (real (height c) - 50) (gamepadState.y (gamepadState s))) \<and>
      (0 \<le> gamepadState.y (gamepadState s) \<and>
       gamepadState.y (gamepadState s) \<le> real (height c) - 50 \<longrightarrow>
         gamepadState.y (gamepadState (snd (updateGamepadState c t gs s))) =
           gamepadState.y (gamepadState s)))"
proof (intro conjI impI)
  assume a: "firstGamepad gs = Some g \<and> horizontalAxis g = Some h \<and> \<bar>h\<bar> \<le> 0.1"
  then have x': "gamepadState.x (gamepadState (snd (updateGamepadState c t gs s))) =
      clampTo (real (width c) - 50) (gamepadState.x (gamepadState s))"
    by (simp add: updateGamepadState_eq useGamepad_x axisDelta_deadZone)
  then show "gamepadState.x (gamepadState (snd (updateGamepadState c t gs s))) =
        max 0 (min (real (width c) - 50) (gamepadState.x (gamepadState s)))"
    by (simp add: clampTo_def)
  assume "0 \<le> gamepadState.x (gamepadState s) \<and>
       gamepadState.x (gamepadState s) \<le> real (width c) - 50"
  then show "gamepadState.x (gamepadState (snd (updateGamepadState c t gs s))) =
           gamepadState.x (gamepadState s)"
    using x' by (simp add: clampTo_id)
next
  assume a: "firstGamepad gs = Some g \<and> verticalAxis g = Some v \<and> \<bar>v\<bar> \<le> 0.1"
  then have y': "gamepadState.y (gamepadState (snd (updateGamepadState c t gs s))) =
      clampTo (real (height c) - 50) (gamepadState.y (gamepadState s))"
    by (simp add: updateGamepadState_eq useGamepad_y axisDelta_deadZone)
  then show "gamepadState.y (gamepadState (snd (updateGamepadState c t gs s))) =
        max 0 (min (real (height c) - 50) (gamepadState.y (gamepadState s)))"
    by (simp add: clampTo_def)
  assume "0 \<le> gamepadState.y (gamepadState s) \<and>
       gamepadState.y (gamepadState s) \<le> real (height c) - 50"
  then show "gamepadState.y (gamepadState (snd (updateGamepadState c t gs s))) =
           gamepadState.y (gamepadState s)"
    using y' by (simp add: clampTo_id)
qed

theorem deadZone_zero_delta_witness:
  "firstGamepad [None, Some (pad [0.1, -0.05, 0, 0] False)] = Some (pad [0.1, -0.05, 0, 0] False) \<and>
   horizontalAxis (pad [0.1, -0.05, 0, 0] False) = Some 0.1 \<and> \<bar>0.1::real\<bar> \<le> 0.1 \<and>
   verticalAxis (pad [0.1, -0.05, 0, 0] False) = Some (-0.05) \<and> \<bar>-0.05::real\<bar> \<le> 0.1 \<and>
   0 \<le> gamepadState.x (gamepadState (initialState canvas800)) \<and>
   gamepadState.x (gamepadState (initialState canvas800)) \<le> real (width canvas800) - 50 \<and>
   0 \<le> gamepadState.y (gamepadState (initialState canvas800)) \<and>
   gamepadState.y (gamepadState (initialState canvas800)) \<le> real (height canvas800) - 50 \<and>
   gamepadState.x (gamepadState (snd (updateGamepadState canvas800 1000
       [None, Some (pad [0.1, -0.05, 0, 0] False)] (initialState canvas800)))) = 375 \<and>
   gamepadState.y (gamepadState (snd (updateGamepadState canvas800 1000
       [None, Some (pad [0.1, -0.05, 0, 0] False)] (initialState canvas800)))) = 275"
proof -
  have a: "firstGamepad [None, Some (pad [0.1, -0.05, 0, 0] False)] =
      Some (pad [0.1, -0.05, 0, 0] False)"
    by simp
  have b: "horizontalAxis (pad [0.1, -0.05, 0, 0] False) = Some 0.1"
    "verticalAxis (pad [0.1, -0.05, 0, 0] False) = Some (-0.05)"
    by (simp_all add: horizontalAxis_pad verticalAxis_pad)
  have c: "\<bar>0.1::real\<bar> \<le> 0.1" "\<bar>-0.05::real\<bar> \<le> 0.1"
    by simp_all
  have d: "gamepadState.x (gamepadState (initialState canvas800)) = 375"
    "gamepadState.y (gamepadState (initialState canvas800)) = 275"
    "real (width canvas800) = 800" "real (height canvas800) = 600"
    by (simp_all add: initialState_def canvas800_def)
  show ?thesis
    using a b c d
      deadZone_zero_delta [where gs = "[None, Some (pad [0.1, -0.05, 0, 0] False)]"
        and g = "pad [0.1, -0.05, 0, 0] False" and h = "0.1" and v = "-0.05"
        and s = "initialState canvas800" and c = canvas800 and t = 1000]
    by simp
qed

section \<open>The entity stays within the canvas\<close>

text \<open>
  Claim C5. In a frame that uses controller \<open>g\<close>, each coordinate is the old one plus the
  delta of its axis, clamped into \<open>[0, size - 50]\<close>, one axis independently of the other.
  When the initial position is within the canvas (the canvas is at least 50 by 50), a tick
  from a position within the canvas ends within the canvas, and so the entity is within the
  canvas in every state the page reaches.
\<close>

theorem entity_stays_inBounds:
  "(firstGamepad gs = Some g \<longrightarrow>
      gamepadState.x (gamepadState (snd (updateGamepadState c t gs s))) =
        max 0 (min (real (width c) - 50)
          (gamepadState.x (gamepadState s) + axisDelta (horizontalAxis g))) \<and>
      gamepadState.y (gamepadState (snd (updateGamepadState c t gs s))) =
        max 0 (min (real (height c) - 50)
          (gamepadState.y (gamepadState s) + axisDelta (verticalAxis g)))) \<and>
   (inBounds c (gamepadState (initialState c)) \<and> inBounds c (gamepadState s) \<longrightarrow>
      inBounds c (gamepadState (snd (gameLoop c i s)))) \<and>
   (inBounds c (gamepadState (initialState c)) \<longrightarrow>
      inBounds c (gamepadState (app (runPage c i evs))))"
proof (intro conjI impI)
  assume "firstGamepad gs = Some g"
  then show "gamepadState.x (gamepadState (snd (updateGamepadState c t gs s))) =
        max 0 (min (real (width c) - 50)
          (gamepadState.x (gamepadState s) + axisDelta (horizontalAxis g)))"
    and "gamepadState.y (gamepadState (snd (updateGamepadState c t gs s))) =
        max 0 (min (real (height c) - 50)
          (gamepadState.y (gamepadState s) + axisDelta (verticalAxis g)))"
    by (simp_all add: updateGamepadState_eq useGamepad_x useGamepad_y clampTo_def)
next
  assume "inBounds c (gamepadState (initialState c)) \<and> inBounds c (gamepadState s)"
  then show "inBounds c (gamepadState (snd (gameLoop c i s)))"
    by (simp add: inBounds_initialState inBounds_gameLoop)
next
  assume "inBounds c (gamepadState (initialState c))"
  then show "inBounds c (gamepadState (app (runPage c i evs)))"
    by (simp add: inBounds_initialState inBounds_runPage)
qed

theorem entity_stays_inBounds_witness:
  "firstGamepad [None, Some (pad [1, -1, 0, 0] False)] = Some (pad [1, -1, 0, 0] False) \<and>
   gamepadState.x (gamepadState (snd (updateGamepadState canvas800 1000
      [None, Some (pad [1, -1, 0, 0] False)] (initialState canvas800)))) = 380 \<and>
   gamepadState.y (gamepadState (snd (updateGamepadState canvas800 1000
      [None, Some (pad [1, -1, 0, 0] False)] (initialState canvas800)))) = 270 \<and>
   inBounds canvas800 (gamepadState (initialState canvas800)) \<and>
   inBounds canvas800 (gamepadState (snd (gameLoop canvas800 frame0 (initialState canvas800)))) \<and>
   inBounds canvas800 (gamepadState (app (runPage canvas800 frame0 unplugTrace)))"
proof -
  have first: "firstGamepad [None, Some (pad [1, -1, 0, 0] False)] = Some (pad [1, -1, 0, 0] False)"
    by simp
  have start: "inBounds canvas800 (gamepadState (initialState canvas800))"
    by (simp add: inBounds_def initialState_def canvas800_def)
  note inv = entity_stays_inBounds [where gs = "[None, Some (pad [1, -1, 0, 0] False)]"
      and g = "pad [1, -1, 0, 0] False" and c = canvas800 and t = 1000
      and s = "initialState canvas800" and i = frame0 and evs = unplugTrace]
  have delta: "axisDelta (horizontalAxis (pad [1, -1, 0, 0] False)) = 5"
    "axisDelta (verticalAxis (pad [1, -1, 0, 0] False)) = - 5"
    by (simp_all add: horizontalAxis_pad verticalAxis_pad axisDelta_def deadZone_def)
  from inv first
  have "gamepadState.x (gamepadState (snd (updateGamepadState canvas800 1000
      [None, Some (pad [1, -1, 0, 0] False)] (initialState canvas800)))) =
      max 0 (min (real (width canvas800) - 50)
        (gamepadState.x (gamepadState (initialState canvas800)) +
         axisDelta (horizontalAxis (pad [1, -1, 0, 0] False))))"
    by blast
  then have x: "gamepadState.x (gamepadState (snd (updateGamepadState canvas800 1000
      [None, Some (pad [1, -1, 0, 0] False)] (initialState canvas800)))) = 380"
    by (simp add: delta initialState_def canvas800_def)
  from inv first
  have "gamepadState.y (gamepadState (snd (updateGamepadState canvas800 1000
      [None, Some (pad [1, -1, 0, 0] False)] (initialState canvas800)))) =
      max 0 (min (real (height canvas800) - 50)
        (gamepadState.y (gamepadState (initialState canvas800)) +
         axisDelta (verticalAxis (pad [1, -1, 0, 0] False))))"
    by blast
  then have y: "gamepadState.y (gamepadState (snd (updateGamepadState canvas800 1000
      [None, Some (pad [1, -1, 0, 0] False)] (initialState canvas800)))) = 270"
    by (simp add: delta initialState_def canvas800_def)
  from inv start
  have tick: "inBounds canvas800 (gamepadState (snd (gameLoop canvas800 frame0 (initialState canvas800))))"
    by blast
  from inv start
  have run: "inBounds canvas800 (gamepadState (app (runPage canvas800 frame0 unplugTrace)))"
    by blast
  show ?thesis
    by (intro conjI first x y start tick run)
qed

section \<open>Orientation: sample and hold\<close>



section \<open>Liveness is monotonic\<close>

text \<open>
  Claim C6. Take any sequence of events of the page and any projectile object that is in
  the store and not active after it. After any further events the object is still in the
  store, unchanged, and so still not active. Every reference of the array points into the
  store, so this covers every projectile of the collection. Operation by operation: the
  update of one projectile leaves one that is not active as it is; so does the whole pass,
  compaction included; a spawn changes no object already in the store.
\<close>

theorem liveness_never_returns:
  "(r < length (heap (app (runPage c i evs))) \<and> \<not> active (heap (app (runPage c i evs)) ! r) \<longrightarrow>
      r < length (heap (app (runPage c i (evs @ evs')))) \<and>
      heap (app (runPage c i (evs @ evs'))) ! r = heap (app (runPage c i evs)) ! r \<and>
      \<not> active (heap (app (runPage c i (evs @ evs'))) ! r)) \<and>
   list_all (\<lambda>q. q < length (heap (app (runPage c i evs)))) (projectiles (app (runPage c i evs))) \<and>
   (\<not> active p \<longrightarrow> moveProjectile c p = p) \<and>
   (\<not> active (heap s ! r) \<longrightarrow> heap (updateProjectiles c s) ! r = heap s ! r) \<and>
   (r < length (heap s) \<longrightarrow> heap (shootProjectile t s) ! r = heap s ! r)"
proof (intro conjI impI)
  assume a: "r < length (heap (app (runPage c i evs))) \<and>
      \<not> active (heap (app (runPage c i evs)) ! r)"
  with preserved_runPage [of c i evs evs']
  show len: "r < length (heap (app (runPage c i (evs @ evs'))))"
    and eq: "heap (app (runPage c i (evs @ evs'))) ! r = heap (app (runPage c i evs)) ! r"
    by (simp_all add: preserved_def)
  from a eq show "\<not> active (heap (app (runPage c i (evs @ evs'))) ! r)" by simp
next
  show "list_all (\<lambda>q. q < length (heap (app (runPage c i evs))))
      (projectiles (app (runPage c i evs)))"
    using wellFormed_runPage [of c i evs] by (simp add: wellFormed_def)
next
  assume "\<not> active p"
  then show "moveProjectile c p = p" by (rule moveProjectile_dead)
next
  assume "\<not> active (heap s ! r)"
  then show "heap (updateProjectiles c s) ! r = heap s ! r"
    by (simp add: updateProjectiles_heap updateLoop_dead)
next
  assume "r < length (heap s)"
  then show "heap (shootProjectile t s) ! r = heap s ! r"
    by (simp add: shootProjectile_heap nth_append)
qed

theorem liveness_never_returns_witness:
  "0 < length (heap (app (runPage canvas60 frame0 exitTrace))) \<and>
   \<not> active (heap (app (runPage canvas60 frame0 exitTrace)) ! 0) \<and>
   projectiles (app (runPage canvas60 frame0 exitTrace)) = [0] \<and>
   heap (app (runPage canvas60 frame0
      (exitTrace @ [AnimationFrame (frameAt 1300 (pad [0, 0, 0, 0] True))]))) ! 0 =
     heap (app (runPage canvas60 frame0 exitTrace)) ! 0 \<and>
   \<not> active (heap (app (runPage canvas60 frame0
      (exitTrace @ [AnimationFrame (frameAt 1300 (pad [0, 0, 0, 0] True))]))) ! 0) \<and>
   length (heap (app (runPage canvas60 frame0
      (exitTrace @ [AnimationFrame (frameAt 1300 (pad [0, 0, 0, 0] True))])))) = 2"
proof -
  have len: "0 < length (heap (app (runPage canvas60 frame0 exitTrace)))"
    by (simp add: runPage_exitTrace small_def)
  have dead: "\<not> active (heap (app (runPage canvas60 frame0 exitTrace)) ! 0)"
    by (simp add: runPage_exitTrace small_def shot_def)
  have ps: "projectiles (app (runPage canvas60 frame0 exitTrace)) = [0]"
    by (simp add: runPage_exitTrace small_def)
  note never = liveness_never_returns [where r = 0 and c = canvas60 and i = frame0
      and evs = exitTrace and evs' = "[AnimationFrame (frameAt 1300 (pad [0, 0, 0, 0] True))]"]
  from never len dead
  have same: "heap (app (runPage canvas60 frame0
      (exitTrace @ [AnimationFrame (frameAt 1300 (pad [0, 0, 0, 0] True))]))) ! 0 =
     heap (app (runPage canvas60 frame0 exitTrace)) ! 0"
    by blast
  from never len dead
  have still: "\<not> active (heap (app (runPage canvas60 frame0
      (exitTrace @ [AnimationFrame (frameAt 1300 (pad [0, 0, 0, 0] True))]))) ! 0)"
    by blast
  have two: "length (heap (app (runPage canvas60 frame0
      (exitTrace @ [AnimationFrame (frameAt 1300 (pad [0, 0, 0, 0] True))])))) = 2"
    by (simp add: runPage_exitTrace_again small_def)
  show ?thesis
    by (intro conjI len dead ps same still two)
qed

section \<open>Compaction\<close>

text \<open>
  Claim C3, as the code has it. A pass over at most 100 stored projectiles leaves the array
  as it is. A pass over more than 100 keeps exactly the references whose object is active
  after this pass has moved it, in order: the stored count becomes the number of projectiles
  live after the pass, never more than before, and smaller exactly when some stored
  projectile is not active after the pass.
\<close>

theorem updateProjectiles_compaction:
  "(length (projectiles s) \<le> 100 \<longrightarrow> projectiles (updateProjectiles c s) = projectiles s) \<and>
   (length (projectiles s) > 100 \<longrightarrow>
      projectiles (updateProjectiles c s) =
        filter (\<lambda>r. active (heap (updateProjectiles c s) ! r)) (projectiles s) \<and>
      length (projectiles (updateProjectiles c s)) \<le> length (projectiles s) \<and>
      (length (projectiles (updateProjectiles c s)) < length (projectiles s) \<longleftrightarrow>
         (\<exists>r\<in>set (projectiles s). \<not> active (heap (updateProjectiles c s) ! r))))"
proof (intro conjI impI)
  assume "length (projectiles s) \<le> 100"
  then show "projectiles (updateProjectiles c s) = projectiles s"
    by (simp add: updateProjectiles_projectiles)
next
  assume big: "length (projectiles s) > 100"
  then show eq: "projectiles (updateProjectiles c s) =
      filter (\<lambda>r. active (heap (updateProjectiles c s) ! r)) (projectiles s)"
    using updateProjectiles_projectiles [of c s] by simp
  show "length (projectiles (updateProjectiles c s)) \<le> length (projectiles s)"
    by (subst eq) (rule length_filter_le)
  show "length (projectiles (updateProjectiles c s)) < length (projectiles s) \<longleftrightarrow>
      (\<exists>r\<in>set (projectiles s). \<not> active (heap (updateProjectiles c s) ! r))"
    by (subst eq) (rule filter_length_less_iff)
qed

theorem updateProjectiles_compaction_witness:
  "length (projectiles (initialState canvas800)) \<le> 100 \<and>
   projectiles (updateProjectiles canvas800 (initialState canvas800)) = [] \<and>
   length (projectiles crowded) > 100 \<and>
   length (projectiles (updateProjectiles canvas800 crowded)) \<le> 101 \<and>
   projectiles (updateProjectiles canvas800 crowded) =
     filter (\<lambda>r. active (heap (updateProjectiles canvas800 crowded) ! r)) (projectiles crowded)"
proof -
  have small: "length (projectiles (initialState canvas800)) \<le> 100"
    by (simp add: initialState_def)
  have big: "length (projectiles crowded) > 100"
    by (simp add: crowded_projectiles)
  note init = updateProjectiles_compaction [of "initialState canvas800" canvas800]
  note crowd = updateProjectiles_compaction [of crowded canvas800]
  from init small
  have "projectiles (updateProjectiles canvas800 (initialState canvas800)) =
      projectiles (initialState canvas800)"
    by blast
  then have kept: "projectiles (updateProjectiles canvas800 (initialState canvas800)) = []"
    by (simp add: initialState_def)
  from crowd big
  have filtered: "projectiles (updateProjectiles canvas800 crowded) =
      filter (\<lambda>r. active (heap (updateProjectiles canvas800 crowded) ! r)) (projectiles crowded)"
    by blast
  from crowd big
  have "length (projectiles (updateProjectiles canvas800 crowded)) \<le> length (projectiles crowded)"
    by blast
  then have fewer: "length (projectiles (updateProjectiles canvas800 crowded)) \<le> 101"
    by (simp add: crowded_projectiles)
  show ?thesis
    by (intro conjI small kept big fewer filtered)
qed

text \<open>
  The count need not go down: with 101 stored projectiles that all stay active, the pass
  stores 101 again.
\<close>

theorem updateProjectiles_all_live_counterexample:
  "length (projectiles crowded) > 100 \<and>
   length (projectiles (updateProjectiles canvas800 crowded)) = length (projectiles crowded)"
proof -
  have "filter (\<lambda>r. active (heap (updateProjectiles canvas800 crowded) ! r)) [0..<101] = [0..<101]"
    by (simp add: filter_id_conv crowded_alive)
  then have "projectiles (updateProjectiles canvas800 crowded) = [0..<101]"
    using updateProjectiles_projectiles [of canvas800 crowded] by (simp add: crowded_projectiles)
  then show ?thesis by (simp add: crowded_projectiles)
qed

section \<open>Spawn and flight of a projectile\<close>

text \<open>
  Claim C9. A shot that is due stores, as the last entry of the array, a fresh projectile at
  the entity's centre (position plus 25 on each axis) with the entity's orientation, speed 8
  and active. One update of an active projectile adds \<open>speed * cos angle\<close> to \<open>x\<close> and
  \<open>speed * sin angle\<close> to \<open>y\<close>; at angle 0 that is \<open>speed\<close> along \<open>x\<close> and nothing
  along \<open>y\<close>. In a state whose references are distinct and valid, one pass applies exactly
  this update to every stored projectile.
\<close>

theorem projectile_spawn_and_step:
  "(t - lastShotTime (gamepadState s) > shootCooldown \<longrightarrow>
      last (projectiles (shootProjectile t s)) = length (heap s) \<and>
      heap (shootProjectile t s) ! length (heap s) =
        \<lparr>projectile.x = gamepadState.x (gamepadState s) + 25,
         projectile.y = gamepadState.y (gamepadState s) + 25,
         projectile.rotation = gamepadState.rotation (gamepadState s),
         speed = 8, active = True\<rparr>) \<and>
   (active p \<longrightarrow>
      projectile.x (moveProjectile c p) = projectile.x p + speed p * cos (projectile.rotation p) \<and>
      projectile.y (moveProjectile c p) = projectile.y p + speed p * sin (projectile.rotation p)) \<and>
   (active p \<and> projectile.rotation p = 0 \<longrightarrow>
      projectile.x (moveProjectile c p) = projectile.x p + speed p \<and>
      projectile.y (moveProjectile c p) = projectile.y p) \<and>
   (wellFormed s \<and> r \<in> set (projectiles s) \<longrightarrow>
      heap (updateProjectiles c s) ! r = moveProjectile c (heap s ! r))"
proof (intro conjI impI)
  assume "t - lastShotTime (gamepadState s) > shootCooldown"
  then show "last (projectiles (shootProjectile t s)) = length (heap s)"
    and "heap (shootProjectile t s) ! length (heap s) =
        \<lparr>projectile.x = gamepadState.x (gamepadState s) + 25,
         projectile.y = gamepadState.y (gamepadState s) + 25,
         projectile.rotation = gamepadState.rotation (gamepadState s),
         speed = 8, active = True\<rparr>"
    by (simp_all add: shootProjectile_projectiles shootProjectile_heap)
next
  assume "active p"
  then show "projectile.x (moveProjectile c p) =
      projectile.x p + speed p * cos (projectile.rotation p)"
    and "projectile.y (moveProjectile c p) =
      projectile.y p + speed p * sin (projectile.rotation p)"
    by (simp_all add: moveProjectile_x moveProjectile_y mult.commute)
next
  assume "active p \<and> projectile.rotation p = 0"
  then show "projectile.x (moveProjectile c p) = projectile.x p + speed p"
    and "projectile.y (moveProjectile c p) = projectile.y p"
    by (simp_all add: moveProjectile_x moveProjectile_y)
next
  assume "wellFormed s \<and> r \<in> set (projectiles s)"
  then show "heap (updateProjectiles c s) ! r = moveProjectile c (heap s ! r)"
    by (simp add: updateProjectiles_in)
qed

theorem projectile_spawn_and_step_witness:
  "(1000::int) - lastShotTime (gamepadState (initialState canvas800)) > shootCooldown \<and>
   heap (shootProjectile 1000 (initialState canvas800)) ! 0 = bullet 400 \<and>
   projectiles (shootProjectile 1000 (initialState canvas800)) = [0] \<and>
   wellFormed (shootProjectile 1000 (initialState canvas800)) \<and>
   active (bullet 400) \<and> projectile.rotation (bullet 400) = 0 \<and> speed (bullet 400) = 8 \<and>
   projectile.x
     (heap (updateProjectiles canvas800 (shootProjectile 1000 (initialState canvas800))) ! 0) = 408 \<and>
   projectile.y
     (heap (updateProjectiles canvas800 (shootProjectile 1000 (initialState canvas800))) ! 0) = 300"
proof -
  have due: "(1000::int) - lastShotTime (gamepadState (initialState canvas800)) > shootCooldown"
    by (simp add: initialState_def shootCooldown_def)
  have wf: "wellFormed (shootProjectile 1000 (initialState canvas800))"
    by (simp add: wellFormed_shootProjectile wellFormed_initialState)
  have ps: "projectiles (shootProjectile 1000 (initialState canvas800)) = [0]"
    using due by (simp add: shootProjectile_projectiles initialState_def)
  have b: "active (bullet 400)" "projectile.rotation (bullet 400) = 0" "speed (bullet 400) = 8"
    "projectile.x (bullet 400) = 400" "projectile.y (bullet 400) = 300"
    by (simp_all add: bullet_def)
  note step = projectile_spawn_and_step [where t = 1000 and s = "initialState canvas800"
      and p = "bullet 400" and c = canvas800]
  note pass = projectile_spawn_and_step [where t = 1000
      and s = "shootProjectile 1000 (initialState canvas800)" and r = 0 and c = canvas800]
  from step due
  have "heap (shootProjectile 1000 (initialState canvas800)) !
      length (heap (initialState canvas800)) =
      \<lparr>projectile.x = gamepadState.x (gamepadState (initialState canvas800)) + 25,
       projectile.y = gamepadState.y (gamepadState (initialState canvas800)) + 25,
       projectile.rotation = gamepadState.rotation (gamepadState (initialState canvas800)),
       speed = 8, active = True\<rparr>"
    by blast
  then have spawn: "heap (shootProjectile 1000 (initialState canvas800)) ! 0 = bullet 400"
    by (simp add: initialState_def bullet_def canvas800_def)
  from step b
  have moved: "projectile.x (moveProjectile canvas800 (bullet 400)) =
      projectile.x (bullet 400) + speed (bullet 400)"
    "projectile.y (moveProjectile canvas800 (bullet 400)) = projectile.y (bullet 400)"
    by blast+
  from pass wf ps
  have "heap (updateProjectiles canvas800 (shootProjectile 1000 (initialState canvas800))) ! 0 =
      moveProjectile canvas800 (heap (shootProjectile 1000 (initialState canvas800)) ! 0)"
    by simp
  with spawn moved b
  have x: "projectile.x
     (heap (updateProjectiles canvas800 (shootProjectile 1000 (initialState canvas800))) ! 0) = 408"
    and y: "projectile.y
     (heap (updateProjectiles canvas800 (shootProjectile 1000 (initialState canvas800))) ! 0) = 300"
    by simp_all
  show ?thesis
    by (intro conjI due spawn ps wf b(1) b(2) b(3) x y)
qed

section \<open>A new projectile moves before it is drawn\<close>

text \<open>
  Claim C10. Take a tick with the controller connected, the trigger pressed and a shot due.
  The input phase, which runs first, stores the new projectile at the centre of the entity
  as that phase has just placed it. When the tick completes (the controller has its two
  left-stick axes), the frame drawn is the one of the final state, in which the new
  projectile has been moved one step; its position differs from the spawn position; and if
  it is still active it is in the array and its disc is drawn at the moved position. When
  the tick throws instead, nothing is drawn and no further frame is scheduled.
\<close>

theorem spawned_projectile_moves_before_render:
  "connected (gamepadState s) \<and> firstGamepad (gamepads i) = Some g \<and> rightTrigger g \<and>
   now i - lastShotTime (gamepadState s) > shootCooldown \<and> wellFormed s \<longrightarrow>
     projectiles (snd (inputPhase c i s)) = projectiles s @ [length (heap s)] \<and>
     heap (snd (inputPhase c i s)) ! length (heap s) =
       newProjectile (applySticks c g (gamepadState s)) \<and>
     (2 \<le> length (axes g) \<longrightarrow>
        fst (gameLoop c i s) = Normal (render (snd (gameLoop c i s))) \<and>
        heap (snd (gameLoop c i s)) ! length (heap s) =
          moveProjectile c (newProjectile (applySticks c g (gamepadState s))) \<and>
        (projectile.x (heap (snd (gameLoop c i s)) ! length (heap s)),
         projectile.y (heap (snd (gameLoop c i s)) ! length (heap s))) \<noteq>
          (projectile.x (newProjectile (applySticks c g (gamepadState s))),
           projectile.y (newProjectile (applySticks c g (gamepadState s)))) \<and>
        (active (heap (snd (gameLoop c i s)) ! length (heap s)) \<longrightarrow>
           length (heap s) \<in> set (projectiles (snd (gameLoop c i s))) \<and>
           (projectile.x (heap (snd (gameLoop c i s)) ! length (heap s)),
            projectile.y (heap (snd (gameLoop c i s)) ! length (heap s)))
             \<in> set (discs (render (snd (gameLoop c i s)))))) \<and>
     (length (axes g) < 2 \<longrightarrow>
        fst (gameLoop c i s) = Throw TypeError \<and> \<not> scheduled (afterTick (gameLoop c i s)))"
proof (intro impI)
  assume a: "connected (gamepadState s) \<and> firstGamepad (gamepads i) = Some g \<and> rightTrigger g \<and>
     now i - lastShotTime (gamepadState s) > shootCooldown \<and> wellFormed s"
  let ?n = "length (heap s)"
  let ?s1 = "snd (inputPhase c i s)"
  let ?s2 = "snd (gameLoop c i s)"
  let ?p = "newProjectile (applySticks c g (gamepadState s))"
  from a have phase: "inputPhase c i s = useGamepad c (now i) g s"
    by (simp add: inputPhase_gamepad)
  from a have ps1: "projectiles ?s1 = projectiles s @ [?n]"
    by (simp add: phase useGamepad_projectiles)
  from a have h1: "heap ?s1 ! ?n = ?p"
    by (simp add: phase useGamepad_heap newProjectile_def)
  from a have wf1: "wellFormed ?s1"
    by (simp add: wellFormed_inputPhase)
  have live: "active ?p" and fast: "speed ?p \<noteq> 0"
    by (simp_all add: newProjectile_def)
  have normal: "2 \<le> length (axes g) \<longrightarrow>
        fst (gameLoop c i s) = Normal (render ?s2) \<and>
        heap ?s2 ! ?n = moveProjectile c ?p \<and>
        (projectile.x (heap ?s2 ! ?n), projectile.y (heap ?s2 ! ?n)) \<noteq>
          (projectile.x ?p, projectile.y ?p) \<and>
        (active (heap ?s2 ! ?n) \<longrightarrow>
           ?n \<in> set (projectiles ?s2) \<and>
           (projectile.x (heap ?s2 ! ?n), projectile.y (heap ?s2 ! ?n))
             \<in> set (discs (render ?s2)))"
  proof
    assume "2 \<le> length (axes g)"
    then have ok: "fst (inputPhase c i s) = Normal ()"
      by (simp add: phase useGamepad_fst)
    then have drawn: "fst (gameLoop c i s) = Normal (render ?s2)"
      by (rule gameLoop_render)
    from ok have h2: "heap ?s2 = heap (updateProjectiles c ?s1)"
      and ps2: "projectiles ?s2 = projectiles (updateProjectiles c ?s1)"
      by (simp_all add: gameLoop_heap gameLoop_projectiles)
    have mem: "?n \<in> set (projectiles ?s1)"
      by (simp add: ps1)
    with wf1 have "heap (updateProjectiles c ?s1) ! ?n = moveProjectile c (heap ?s1 ! ?n)"
      by (rule updateProjectiles_in)
    with h1 h2 have moved: "heap ?s2 ! ?n = moveProjectile c ?p"
      by simp
    have away: "(projectile.x (heap ?s2 ! ?n), projectile.y (heap ?s2 ! ?n)) \<noteq>
          (projectile.x ?p, projectile.y ?p)"
      unfolding moved using live fast by (rule moveProjectile_moves)
    have shown: "active (heap ?s2 ! ?n) \<longrightarrow>
           ?n \<in> set (projectiles ?s2) \<and>
           (projectile.x (heap ?s2 ! ?n), projectile.y (heap ?s2 ! ?n))
             \<in> set (discs (render ?s2))"
    proof
      assume act: "active (heap ?s2 ! ?n)"
      with mem h2 have "?n \<in> set (projectiles (updateProjectiles c ?s1))"
        by (simp add: updateProjectiles_keeps)
      with ps2 have kept: "?n \<in> set (projectiles ?s2)" by simp
      with act show "?n \<in> set (projectiles ?s2) \<and>
           (projectile.x (heap ?s2 ! ?n), projectile.y (heap ?s2 ! ?n))
             \<in> set (discs (render ?s2))"
        by (simp add: renderProjectiles_shows)
    qed
    from drawn moved away shown
    show "fst (gameLoop c i s) = Normal (render ?s2) \<and>
        heap ?s2 ! ?n = moveProjectile c ?p \<and>
        (projectile.x (heap ?s2 ! ?n), projectile.y (heap ?s2 ! ?n)) \<noteq>
          (projectile.x ?p, projectile.y ?p) \<and>
        (active (heap ?s2 ! ?n) \<longrightarrow>
           ?n \<in> set (projectiles ?s2) \<and>
           (projectile.x (heap ?s2 ! ?n), projectile.y (heap ?s2 ! ?n))
             \<in> set (discs (render ?s2)))"
      by blast
  qed
  have thrown: "length (axes g) < 2 \<longrightarrow>
        fst (gameLoop c i s) = Throw TypeError \<and> \<not> scheduled (afterTick (gameLoop c i s))"
  proof
    assume "length (axes g) < 2"
    then have "fst (inputPhase c i s) = Throw TypeError"
      by (simp add: phase useGamepad_fst)
    then have "fst (gameLoop c i s) = Throw TypeError"
      by (rule gameLoop_throw)
    then show "fst (gameLoop c i s) = Throw TypeError \<and> \<not> scheduled (afterTick (gameLoop c i s))"
      by (simp add: scheduled_afterTick)
  qed
  from ps1 h1 normal thrown
  show "projectiles ?s1 = projectiles s @ [?n] \<and>
     heap ?s1 ! ?n = ?p \<and>
     (2 \<le> length (axes g) \<longrightarrow>
        fst (gameLoop c i s) = Normal (render ?s2) \<and>
        heap ?s2 ! ?n = moveProjectile c ?p \<and>
        (projectile.x (heap ?s2 ! ?n), projectile.y (heap ?s2 ! ?n)) \<noteq>
          (projectile.x ?p, projectile.y ?p) \<and>
        (active (heap ?s2 ! ?n) \<longrightarrow>
           ?n \<in> set (projectiles ?s2) \<and>
           (projectile.x (heap ?s2 ! ?n), projectile.y (heap ?s2 ! ?n))
             \<in> set (discs (render ?s2)))) \<and>
     (length (axes g) < 2 \<longrightarrow>
        fst (gameLoop c i s) = Throw TypeError \<and> \<not> scheduled (afterTick (gameLoop c i s)))"
    by blast
qed

theorem spawned_projectile_moves_before_render_witness:
  "connected (gamepadState plugged) \<and>
   firstGamepad (gamepads (frameAt 1000 (pad [0, 0, 0, 0] True))) = Some (pad [0, 0, 0, 0] True) \<and>
   rightTrigger (pad [0, 0, 0, 0] True) \<and>
   now (frameAt 1000 (pad [0, 0, 0, 0] True)) - lastShotTime (gamepadState plugged) > shootCooldown \<and>
   wellFormed plugged \<and>
   2 \<le> length (axes (pad [0, 0, 0, 0] True)) \<and>
   newProjectile (applySticks canvas800 (pad [0, 0, 0, 0] True) (gamepadState plugged)) = bullet 400 \<and>
   heap (snd (gameLoop canvas800 (frameAt 1000 (pad [0, 0, 0, 0] True)) plugged)) ! 0 = bullet 408 \<and>
   active (heap (snd (gameLoop canvas800 (frameAt 1000 (pad [0, 0, 0, 0] True)) plugged)) ! 0) \<and>
   (408, 300) \<in> set (discs (render
      (snd (gameLoop canvas800 (frameAt 1000 (pad [0, 0, 0, 0] True)) plugged)))) \<and>
   firstGamepad (gamepads (frameAt 1000 (pad [] True))) = Some (pad [] True) \<and>
   rightTrigger (pad [] True) \<and>
   now (frameAt 1000 (pad [] True)) - lastShotTime (gamepadState plugged) > shootCooldown \<and>
   length (axes (pad [] True)) < 2 \<and>
   fst (gameLoop canvas800 (frameAt 1000 (pad [] True)) plugged) = Throw TypeError"
proof -
  let ?g = "pad [0, 0, 0, 0] True"
  let ?i = "frameAt 1000 ?g"
  let ?s2 = "snd (gameLoop canvas800 ?i plugged)"
  have con: "connected (gamepadState plugged)"
    by (simp add: plugged_def entityAt_def)
  have first: "firstGamepad (gamepads ?i) = Some ?g"
    "firstGamepad (gamepads (frameAt 1000 (pad [] True))) = Some (pad [] True)"
    by (simp_all add: frameAt_def)
  have trig: "rightTrigger ?g" "rightTrigger (pad [] True)"
    by (simp_all add: rightTrigger_pad)
  have due: "now ?i - lastShotTime (gamepadState plugged) > shootCooldown"
    "now (frameAt 1000 (pad [] True)) - lastShotTime (gamepadState plugged) > shootCooldown"
    by (simp_all add: frameAt_def plugged_def entityAt_def shootCooldown_def)
  have wf: "wellFormed plugged"
    by (simp add: wellFormed_def plugged_def initialState_def)
  have ax: "2 \<le> length (axes ?g)" "length (axes (pad [] True)) < 2"
    by (simp_all add: pad_axes)
  have n: "length (heap plugged) = 0"
    by (simp add: plugged_def initialState_def)
  have new: "newProjectile (applySticks canvas800 ?g (gamepadState plugged)) = bullet 400"
    by (simp add: newProjectile_def applySticks_eq plugged_def entityAt_def bullet_def
        pad_axes horizontalAxis_def verticalAxis_def rightHorizontalAxis_def
        rightVerticalAxis_def axisDelta_def clampTo_def heldRotation_def deadZone_def
        index_def orZero_def canvas800_def)
  have moved: "moveProjectile canvas800 (bullet 400) = bullet 408"
    by (simp add: moveProjectile_def bullet_def canvas800_def)
  note fire = spawned_projectile_moves_before_render [where s = plugged and i = ?i and g = ?g
      and c = canvas800]
  note fail = spawned_projectile_moves_before_render [where s = plugged
      and i = "frameAt 1000 (pad [] True)" and g = "pad [] True" and c = canvas800]
  from fire con first(1) trig(1) due(1) wf ax(1)
  have "heap ?s2 ! length (heap plugged) =
      moveProjectile canvas800 (newProjectile (applySticks canvas800 ?g (gamepadState plugged)))"
    by blast
  then have at: "heap ?s2 ! 0 = bullet 408"
    by (simp add: n new moved)
  then have act: "active (heap ?s2 ! 0)"
    by (simp add: bullet_def)
  from fire con first(1) trig(1) due(1) wf ax(1)
  have "active (heap ?s2 ! length (heap plugged)) \<longrightarrow>
      (projectile.x (heap ?s2 ! length (heap plugged)),
       projectile.y (heap ?s2 ! length (heap plugged))) \<in> set (discs (render ?s2))"
    by blast
  with act have "(projectile.x (heap ?s2 ! 0), projectile.y (heap ?s2 ! 0))
      \<in> set (discs (render ?s2))"
    by (simp add: n)
  then have disc: "(408, 300) \<in> set (discs (render ?s2))"
    by (simp add: at bullet_def)
  from fail con first(2) trig(2) due(2) wf ax(2)
  have thrown: "fst (gameLoop canvas800 (frameAt 1000 (pad [] True)) plugged) = Throw TypeError"
    by blast
  show ?thesis
    by (intro conjI con first trig due wf ax new at act disc thrown)
qed

section \<open>A controller without the left-stick axes\<close>

text \<open>
  Claim C8 does not hold of the code. Missing axes 2 and 3 and missing buttons are read as
  zero and not pressed, but axes 0 and 1 are used as they are: with a connected controller
  that exposes no axes, the status template throws a TypeError, the tick ends before the
  next frame is requested, and the page runs no frame after that.
\<close>

theorem missing_left_stick_axis_stops_the_loop:
  "index (axes (pad [] False)) 0 = None \<and>
   connected (gamepadState (app (runPage canvas800 frame0 [GamepadConnected ''pad'']))) \<and>
   scheduled (runPage canvas800 frame0 [GamepadConnected ''pad'']) \<and>
   fst (gameLoop canvas800 (frameAt 1000 (pad [] False))
          (app (runPage canvas800 frame0 [GamepadConnected ''pad'']))) = Throw TypeError \<and>
   \<not> scheduled (runPage canvas800 frame0
       [GamepadConnected ''pad'', AnimationFrame (frameAt 1000 (pad [] False))]) \<and>
   runPage canvas800 frame0
       [GamepadConnected ''pad'', AnimationFrame (frameAt 1000 (pad [] False)),
        AnimationFrame (frameAt 1016 (pad [0, 0, 0, 0] False))] =
     runPage canvas800 frame0
       [GamepadConnected ''pad'', AnimationFrame (frameAt 1000 (pad [] False))]"
proof -
  have stop: "runPage canvas800 frame0
       [GamepadConnected ''pad'', AnimationFrame (frameAt 1000 (pad [] False))] =
      \<lparr>app = plugged, scheduled = False\<rparr>"
    unfolding runPage_snoc [of _ _ "[GamepadConnected ''pad'']", simplified] runPage_plugged
    by (simp add: gameLoop_plugged_released_no_axes afterTick_def)
  have later: "runPage canvas800 frame0
       [GamepadConnected ''pad'', AnimationFrame (frameAt 1000 (pad [] False)),
        AnimationFrame (frameAt 1016 (pad [0, 0, 0, 0] False))] =
      \<lparr>app = plugged, scheduled = False\<rparr>"
    unfolding runPage_snoc [of _ _ "[GamepadConnected ''pad'', AnimationFrame (frameAt 1000 (pad [] False))]", simplified] stop
    by simp
  show ?thesis
    unfolding stop later runPage_plugged
    by (simp add: gameLoop_plugged_released_no_axes pad_axes index_def)
      (simp add: plugged_def entityAt_def)
qed

end
